theory Spec2Isabelle
  imports Main "HOL-Library.Word"
begin

section \<open>Go values used by the backend\<close>

text \<open>
  A Go \<open>string\<close> is a sequence of bytes: here a \<open>char list\<close>. A Go \<open>int\<close> is a 64-bit
  two's complement integer: here a \<open>64 word\<close>, read with \<open>sint\<close>. A Go slice is either
  \<open>nil\<close> or a (possibly empty) sequence: here an optional list, \<open>None\<close> for \<open>nil\<close>, since
  \<open>encoding/json\<close> writes the two differently.
\<close>

type_synonym go_int = "64 word"

type_synonym 'a slice = "'a list option"

definition elems :: "'a slice \<Rightarrow> 'a list" where
  "elems s = (case s of None \<Rightarrow> [] | Some xs \<Rightarrow> xs)"

definition len :: "'a slice \<Rightarrow> nat" where
  "len s = length (elems s)"

text \<open>\<open>append(s, x)\<close>: the result is never \<open>nil\<close>.\<close>

definition append_slice :: "'a slice \<Rightarrow> 'a \<Rightarrow> 'a slice" where
  "append_slice s x = Some (elems s @ [x])"

subsection \<open>Package strings\<close>

text \<open>
  The functions of package \<open>strings\<close> that the backend calls. \<open>ToLower\<close> is modelled
  on the ASCII letters: a byte from 0x80 on is left as it is (Go maps the letters beyond
  ASCII through the Unicode tables). No proof below depends on which mapping it is.
\<close>

definition HasPrefix :: "string \<Rightarrow> string \<Rightarrow> bool" where
  "HasPrefix s pre = (take (length pre) s = pre)"

definition TrimPrefix :: "string \<Rightarrow> string \<Rightarrow> string" where
  "TrimPrefix s pre = (if HasPrefix s pre then drop (length pre) s else s)"

fun Contains :: "string \<Rightarrow> string \<Rightarrow> bool" where
  "Contains [] substr = (substr = [])"
| "Contains (c # cs) substr = (HasPrefix (c # cs) substr \<or> Contains cs substr)"

definition ToLower_char :: "char \<Rightarrow> char" where
  "ToLower_char c =
     (case map_of (zip ''ABCDEFGHIJKLMNOPQRSTUVWXYZ'' ''abcdefghijklmnopqrstuvwxyz'') c of
        None \<Rightarrow> c | Some l \<Rightarrow> l)"

definition ToLower :: "string \<Rightarrow> string" where
  "ToLower s = map ToLower_char s"

text \<open>
  \<open>strings.TrimSpace\<close> removes the leading and the trailing white space, as Unicode
  defines it: the six ASCII characters of \<open>asciiSpace\<close>, U+0085 and U+00A0 (two bytes in
  UTF-8), and U+1680, U+2000 to U+200A, U+2028, U+2029, U+202F, U+205F and U+3000 (three
  bytes). A byte sequence that is not the UTF-8 encoding of one of them stops the
  trimming. The trailing end is read on the reversed string, where the bytes of a
  character come last byte first.
\<close>

definition asciiSpace :: "char \<Rightarrow> bool" where
  "asciiSpace c = (c = CHR 0x09 \<or> c = CHR 0x0A \<or> c = CHR 0x0B \<or> c = CHR 0x0C
                   \<or> c = CHR 0x0D \<or> c = CHR 0x20)"

definition space2 :: "char \<Rightarrow> char \<Rightarrow> bool" where
  "space2 a b = (a = CHR 0xC2 \<and> (b = CHR 0x85 \<or> b = CHR 0xA0))"

definition space3 :: "char \<Rightarrow> char \<Rightarrow> char \<Rightarrow> bool" where
  "space3 a b c =
     (a = CHR 0xE1 \<and> b = CHR 0x9A \<and> c = CHR 0x80
      \<or> a = CHR 0xE2 \<and> b = CHR 0x80
          \<and> c \<in> set [CHR 0x80, CHR 0x81, CHR 0x82, CHR 0x83, CHR 0x84, CHR 0x85, CHR 0x86,
                       CHR 0x87, CHR 0x88, CHR 0x89, CHR 0x8A, CHR 0xA8, CHR 0xA9, CHR 0xAF]
      \<or> a = CHR 0xE2 \<and> b = CHR 0x81 \<and> c = CHR 0x9F
      \<or> a = CHR 0xE3 \<and> b = CHR 0x80 \<and> c = CHR 0x80)"

fun TrimLeftSpace :: "string \<Rightarrow> string" where
  "TrimLeftSpace [] = []"
| "TrimLeftSpace (a # s) =
     (if asciiSpace a then TrimLeftSpace s
      else (case s of
              [] \<Rightarrow> [a]
            | b # s' \<Rightarrow>
                if space2 a b then TrimLeftSpace s'
                else (case s' of
                        [] \<Rightarrow> [a, b]
                      | c # s'' \<Rightarrow>
                          if space3 a b c then TrimLeftSpace s'' else a # b # c # s'')))"

fun TrimRightSpace_rev :: "string \<Rightarrow> string" where
  "TrimRightSpace_rev [] = []"
| "TrimRightSpace_rev (c # s) =
     (if asciiSpace c then TrimRightSpace_rev s
      else (case s of
              [] \<Rightarrow> [c]
            | b # s' \<Rightarrow>
                if space2 b c then TrimRightSpace_rev s'
                else (case s' of
                        [] \<Rightarrow> [c, b]
                      | a # s'' \<Rightarrow>
                          if space3 a b c then TrimRightSpace_rev s'' else c # b # a # s'')))"

definition TrimSpace :: "string \<Rightarrow> string" where
  "TrimSpace s = rev (TrimRightSpace_rev (rev (TrimLeftSpace s)))"

text \<open>A string that holds white space only: a sequence of such characters, or nothing.\<close>

fun blank :: "string \<Rightarrow> bool" where
  "blank [] = True"
| "blank (a # s) =
     (if asciiSpace a then blank s
      else (case s of
              [] \<Rightarrow> False
            | b # s' \<Rightarrow>
                if space2 a b then blank s'
                else (case s' of
                        [] \<Rightarrow> False
                      | c # s'' \<Rightarrow> if space3 a b c then blank s'' else False)))"

text \<open>
  \<open>strings.Split(s, sep)\<close> for a separator of one byte, the only way the backend calls
  it: the pieces between the separators, one more than there are separators (so the
  result is never empty, and the first branch of the \<open>case\<close> is never taken).
\<close>

fun Split :: "string \<Rightarrow> char \<Rightarrow> string list" where
  "Split [] sep = [[]]"
| "Split (c # cs) sep =
     (if c = sep then [] # Split cs sep
      else (case Split cs sep of
              [] \<Rightarrow> [[c]]
            | piece # pieces \<Rightarrow> (c # piece) # pieces))"

subsection \<open>Package strconv\<close>

datatype error =
    ErrSyntax
  | ErrRange
  | ErrNoRows
  | ErrorString string
  | Wrapped string error

text \<open>
  \<open>ErrSyntax\<close> and \<open>ErrRange\<close> are the two errors of \<open>strconv\<close>, \<open>ErrNoRows\<close> is
  \<open>sql.ErrNoRows\<close>, \<open>ErrorString m\<close> is any other error with message \<open>m\<close> (from
  \<open>errors.New\<close>, \<open>fmt.Errorf\<close> without \<open>%w\<close>, or the database driver), and
  \<open>Wrapped m e\<close> is \<open>fmt.Errorf("m: %w", e)\<close>.
\<close>

definition is_digit :: "char \<Rightarrow> bool" where
  "is_digit c = (c \<in> set ''0123456789'')"

definition digit_val :: "char \<Rightarrow> nat" where
  "digit_val c = of_char c - 48"

definition digit_char :: "nat \<Rightarrow> char" where
  "digit_char n = ''0123456789'' ! n"

text \<open>The value of a string of decimal digits, most significant first.\<close>

definition decimal :: "string \<Rightarrow> nat" where
  "decimal ds = foldl (\<lambda>n c. 10 * n + digit_val c) 0 ds"

definition int64_min :: int where
  "int64_min = - (2 ^ 63)"

definition int64_max :: int where
  "int64_max = 2 ^ 63 - 1"

text \<open>
  \<open>strconv.Atoi\<close>: an optional sign, then at least one decimal digit and nothing else;
  a value outside the 64-bit range is an error.
\<close>

definition Atoi :: "string \<Rightarrow> error + go_int" where
  "Atoi s =
     (let neg = (s \<noteq> [] \<and> hd s = CHR ''-'');
          ds = (if s \<noteq> [] \<and> (hd s = CHR ''-'' \<or> hd s = CHR ''+'') then tl s else s)
      in if ds = [] \<or> \<not> list_all is_digit ds then Inl ErrSyntax
         else let v = (if neg then - int (decimal ds) else int (decimal ds))
              in if v < int64_min \<or> int64_max < v then Inl ErrRange
                 else Inr (word_of_int v))"

text \<open>\<open>strconv.Itoa\<close> and \<open>strconv.FormatInt(_, 10)\<close>.\<close>

fun nat_dec :: "nat \<Rightarrow> string" where
  "nat_dec n = (if n < 10 then [digit_char n] else nat_dec (n div 10) @ [digit_char (n mod 10)])"

declare nat_dec.simps [simp del]

definition Itoa :: "go_int \<Rightarrow> string" where
  "Itoa i = (if sint i < 0 then CHR ''-'' # nat_dec (nat (- sint i)) else nat_dec (nat (sint i)))"

section \<open>Package models\<close>

record Article =
  ID :: go_int
  Title :: string
  Content :: string

section \<open>Package ai\<close>

record AIAnalysisResult =
  Summary :: string
  RelevantArticles :: "go_int slice"

subsection \<open>The mock service\<close>

definition summary_password :: string where
  "summary_password = ''To reset your password, go to the login page, click 'Forgot Password', enter your email address, and follow the instructions sent to your email. The reset link expires in 24 hours.''"

definition summary_vpn :: string where
  "summary_vpn = ''To set up VPN connection, download the VPN client from the IT portal, install it with admin credentials, and connect to the 'Corporate-Main' server using your domain username and password.''"

definition summary_email :: string where
  "summary_email = ''For email configuration, use IMAP: mail.company.com port 993 SSL and SMTP: mail.company.com port 587 STARTTLS. Ensure your username format is firstname.lastname@company.com.''"

definition summary_printer :: string where
  "summary_printer = ''For printer issues, ensure the printer is connected to the corporate network, install latest drivers, and add printer using IP address 192.168.1.100.''"

definition summary_found :: string where
  "summary_found = ''I found relevant information in our knowledge base that should help with your query. Please review the articles below for detailed instructions.''"

definition summary_not_found :: string where
  "summary_not_found = ''I couldn't find specific information for your query in our knowledge base. Please contact IT support for further assistance, or try rephrasing your question.''"

text \<open>
  The body of the loop over the articles in \<open>MockAIService.AnalyzeQuery\<close>: \<open>query\<close> is
  the lower-cased query, \<open>relevantArticles\<close> the slice built so far.
\<close>

definition mock_visit :: "string \<Rightarrow> go_int slice \<Rightarrow> Article \<Rightarrow> go_int slice" where
  "mock_visit query relevantArticles article =
     (let articleText = ToLower (Title article @ '' '' @ Content article)
      in if Contains query ''password'' \<and> Contains articleText ''password''
           then append_slice relevantArticles (ID article)
         else if Contains query ''vpn'' \<and> Contains articleText ''vpn''
           then append_slice relevantArticles (ID article)
         else if Contains query ''email'' \<and> Contains articleText ''email''
           then append_slice relevantArticles (ID article)
         else if Contains query ''printer'' \<and> Contains articleText ''printer''
           then append_slice relevantArticles (ID article)
         else if Contains query ''software'' \<and> Contains articleText ''software''
           then append_slice relevantArticles (ID article)
         else if Contains query ''backup'' \<and> Contains articleText ''backup''
           then append_slice relevantArticles (ID article)
         else if Contains query ''antivirus'' \<and> Contains articleText ''antivirus''
           then append_slice relevantArticles (ID article)
         else if Contains query ''remote'' \<and> Contains articleText ''remote''
           then append_slice relevantArticles (ID article)
         else relevantArticles)"

definition MockAIService_AnalyzeQuery ::
    "string \<Rightarrow> Article slice \<Rightarrow> error + AIAnalysisResult" where
  "MockAIService_AnalyzeQuery query0 articles =
     (let query = ToLower query0;
          relevantArticles = foldl (mock_visit query) None (elems articles);
          summary =
            (if Contains query ''password'' then summary_password
             else if Contains query ''vpn'' then summary_vpn
             else if Contains query ''email'' then summary_email
             else if Contains query ''printer'' then summary_printer
             else if len relevantArticles > 0 then summary_found
             else summary_not_found)
      in Inr \<lparr>Summary = summary, RelevantArticles = relevantArticles\<rparr>)"

subsection \<open>The heuristic as the specification words it\<close>

text \<open>
  The reference definition of the heuristic strategy, written from the specification
  and not from the code: a closed list of topic keywords; an article is relevant when
  some keyword occurs in the lower-cased query and in the article's lower-cased combined
  text (the title, a space, the content); the identifiers are listed in the order of the
  articles; the summary follows a fixed priority.
\<close>

definition topic_keywords :: "string list" where
  "topic_keywords =
     [''password'', ''vpn'', ''email'', ''printer'', ''software'', ''backup'', ''antivirus'', ''remote'']"

definition combined_text :: "Article \<Rightarrow> string" where
  "combined_text a = Title a @ '' '' @ Content a"

definition spec_relevant :: "string \<Rightarrow> Article \<Rightarrow> bool" where
  "spec_relevant q a =
     (\<exists>k \<in> set topic_keywords. Contains (ToLower q) k \<and> Contains (ToLower (combined_text a)) k)"

definition spec_relevant_ids :: "string \<Rightarrow> Article list \<Rightarrow> go_int list" where
  "spec_relevant_ids q as = map ID (filter (spec_relevant q) as)"

definition spec_summary :: "string \<Rightarrow> Article list \<Rightarrow> string" where
  "spec_summary q as =
     (if Contains (ToLower q) ''password'' then summary_password
      else if Contains (ToLower q) ''vpn'' then summary_vpn
      else if Contains (ToLower q) ''email'' then summary_email
      else if Contains (ToLower q) ''printer'' then summary_printer
      else if spec_relevant_ids q as \<noteq> [] then summary_found
      else summary_not_found)"


subsection \<open>The Gemini service\<close>

definition fallback_summary :: string where
  "fallback_summary = ''I found some information that might help you. Please review the relevant articles below, or contact IT support for further assistance.''"

text \<open>\<open>GeminiService.articleExists\<close>: a loop over the articles that returns at the first hit.\<close>

fun articleExists_loop :: "go_int \<Rightarrow> Article list \<Rightarrow> bool" where
  "articleExists_loop i [] = False"
| "articleExists_loop i (article # rest) =
     (if ID article = i then True else articleExists_loop i rest)"

definition articleExists :: "go_int \<Rightarrow> Article slice \<Rightarrow> bool" where
  "articleExists i articles = articleExists_loop i (elems articles)"

text \<open>
  The inner loop of \<open>GeminiService.parseResponse\<close>, over the comma-separated pieces of a
  \<open>RELEVANT_ARTICLES:\<close> line: a piece that \<open>Atoi\<close> rejects, or whose number is not the
  identifier of a supplied article, leaves the slice as it is.
\<close>

definition parse_token :: "Article slice \<Rightarrow> go_int slice \<Rightarrow> string \<Rightarrow> go_int slice" where
  "parse_token articles relevantArticleIDs articleStr0 =
     (let articleStr = TrimSpace articleStr0
      in case Atoi articleStr of
           Inl err \<Rightarrow> relevantArticleIDs
         | Inr i \<Rightarrow>
             if articleExists i articles then append_slice relevantArticleIDs i
             else relevantArticleIDs)"

text \<open>
  The outer loop, over the lines of the response: the state is the pair of the local
  variables \<open>summary\<close> and \<open>relevantArticleIDs\<close>.
\<close>

definition parse_line ::
    "Article slice \<Rightarrow> string \<times> go_int slice \<Rightarrow> string \<Rightarrow> string \<times> go_int slice" where
  "parse_line articles st line0 =
     (let summary = fst st; relevantArticleIDs = snd st; line = TrimSpace line0
      in if HasPrefix line ''SUMMARY:''
           then (TrimSpace (TrimPrefix line ''SUMMARY:''), relevantArticleIDs)
         else if HasPrefix line ''RELEVANT_ARTICLES:''
           then (let articlesStr = TrimSpace (TrimPrefix line ''RELEVANT_ARTICLES:'')
                 in if articlesStr \<noteq> ''none'' \<and> articlesStr \<noteq> ''''
                      then (summary,
                            foldl (parse_token articles) relevantArticleIDs
                              (Split articlesStr (CHR '','')))
                    else (summary, relevantArticleIDs))
         else (summary, relevantArticleIDs))"

definition parseResponse :: "string \<Rightarrow> Article slice \<Rightarrow> error + AIAnalysisResult" where
  "parseResponse response articles =
     (let lines = Split response (CHR 0x0A);
          st = foldl (parse_line articles) ('''', None) lines;
          summary = (if fst st = '''' then fallback_summary else fst st)
      in Inr \<lparr>Summary = summary, RelevantArticles = snd st\<rparr>)"

text \<open>
  \<open>GeminiService.AnalyzeQuery\<close>. The call to the external model is the environment's:
  \<open>reply\<close> is what \<open>GenerateContent\<close> returned for the prompt, an error, no candidate
  (\<open>None\<close>), or the text of the first part of the first candidate.
\<close>

definition GeminiService_AnalyzeQuery ::
    "error + string option \<Rightarrow> string \<Rightarrow> Article slice \<Rightarrow> error + AIAnalysisResult" where
  "GeminiService_AnalyzeQuery reply query articles =
     (case reply of
        Inl err \<Rightarrow> Inl (Wrapped ''failed to generate content'' err)
      | Inr None \<Rightarrow> Inl (ErrorString ''no response generated'')
      | Inr (Some responseText) \<Rightarrow> parseResponse responseText articles)"

subsection \<open>The response format as the specification words it\<close>

text \<open>
  Written from the specification: a response is read line by line; a line counts by its
  literal prefix once the white space around it is gone, wherever it stands; the list
  line names no article when it says \<open>none\<close> or nothing; a piece of the list that is not
  a number, or not the identifier of a supplied article, is skipped; a missing or empty
  summary gives the fixed fallback text.
\<close>

definition response_lines :: "string \<Rightarrow> string list" where
  "response_lines response = map TrimSpace (Split response (CHR 0x0A))"

definition summary_lines :: "string \<Rightarrow> string list" where
  "summary_lines response = filter (\<lambda>l. HasPrefix l ''SUMMARY:'') (response_lines response)"

definition relevant_lines :: "string \<Rightarrow> string list" where
  "relevant_lines response =
     filter (\<lambda>l. HasPrefix l ''RELEVANT_ARTICLES:'') (response_lines response)"

definition spec_token_ids :: "Article list \<Rightarrow> string \<Rightarrow> go_int list" where
  "spec_token_ids as tok =
     (case Atoi (TrimSpace tok) of
        Inl e \<Rightarrow> []
      | Inr i \<Rightarrow> if i \<in> ID ` set as then [i] else [])"

definition spec_line_ids :: "Article list \<Rightarrow> string \<Rightarrow> go_int list" where
  "spec_line_ids as l =
     (let body = TrimSpace (drop (length ''RELEVANT_ARTICLES:'') l)
      in if body = ''none'' \<or> body = '''' then []
         else concat (map (spec_token_ids as) (Split body (CHR '',''))))"

definition spec_parsed_ids :: "Article list \<Rightarrow> string \<Rightarrow> go_int list" where
  "spec_parsed_ids as response = concat (map (spec_line_ids as) (relevant_lines response))"

definition spec_parsed_summary :: "string \<Rightarrow> string" where
  "spec_parsed_summary response =
     (case rev (summary_lines response) of
        [] \<Rightarrow> fallback_summary
      | l # _ \<Rightarrow>
          (let body = TrimSpace (drop (length ''SUMMARY:'') l)
           in if body = '''' then fallback_summary else body))"

section \<open>Package models, continued\<close>

text \<open>A \<open>time.Time\<close> is kept abstract: a number read off the clock.\<close>

type_synonym Time = nat

record Query =
  Query_ID :: go_int
  Query_Query :: string
  Query_CreatedAt :: Time

record SearchResult =
  SearchResult_ID :: go_int
  QueryID :: go_int
  AISummaryAnswer :: string
  AIRelevantArticles :: "go_int slice"
  SearchResult_CreatedAt :: Time

record SearchRequest =
  Request_Query :: string

record SearchResponse =
  Response_Query :: string
  Response_AISummaryAnswer :: string
  Response_AIRelevantArticles :: "Article slice"
  Response_QueryID :: go_int
  Timestamp :: Time

record ErrorResponse =
  Error :: string
  Message :: string

section \<open>Package encoding/json, for a slice of integers\<close>

text \<open>
  \<open>json.Marshal\<close> of a \<open>[]int\<close>: \<open>null\<close> for the nil slice, else the decimal numbers
  between brackets, separated by commas. It has no error case.
\<close>

fun join_commas :: "string list \<Rightarrow> string" where
  "join_commas [] = []"
| "join_commas [x] = x"
| "join_commas (x # y # ys) = x @ CHR '','' # join_commas (y # ys)"

definition json_Marshal :: "go_int slice \<Rightarrow> string" where
  "json_Marshal v =
     (case v of
        None \<Rightarrow> ''null''
      | Some xs \<Rightarrow> ''['' @ join_commas (map Itoa xs) @ '']'')"

text \<open>
  \<open>json.Unmarshal\<close> into a nil \<open>[]int\<close>, by what the library documents: white space
  around values is skipped; \<open>null\<close> leaves the slice nil; an array gives a slice that is
  not nil; an element is an integer literal of JSON (an optional minus sign, then \<open>0\<close>
  or digits that do not start with \<open>0\<close>) that fits 64 bits, or \<open>null\<close>, which leaves the
  element 0. Every other text is an error: malformed JSON is a syntax error, and a value
  of another kind (a string, a fraction, an object, a nested array) is a type error. The
  model tells the texts that decode from those that do not, and keeps one message for
  each kind of error.
\<close>

definition json_space :: "char \<Rightarrow> bool" where
  "json_space c = (c = CHR 0x20 \<or> c = CHR 0x09 \<or> c = CHR 0x0A \<or> c = CHR 0x0D)"

definition json_trim :: "string \<Rightarrow> string" where
  "json_trim s = rev (dropWhile json_space (rev (dropWhile json_space s)))"

definition json_int_literal :: "string \<Rightarrow> bool" where
  "json_int_literal s =
     (let ds = (if s \<noteq> [] \<and> hd s = CHR ''-'' then tl s else s)
      in ds \<noteq> [] \<and> list_all is_digit ds \<and> (ds = ''0'' \<or> hd ds \<noteq> CHR ''0''))"

definition json_type_error :: error where
  "json_type_error = ErrorString ''json: cannot unmarshal value into Go value of type int''"

definition json_syntax_error :: error where
  "json_syntax_error = ErrorString ''json: invalid character''"

definition json_element :: "string \<Rightarrow> error + go_int" where
  "json_element piece =
     (let tok = json_trim piece
      in if tok = ''null'' then Inr 0
         else if json_int_literal tok
           then (case Atoi tok of Inl e \<Rightarrow> Inl json_type_error | Inr v \<Rightarrow> Inr v)
         else Inl json_syntax_error)"

fun collect :: "(error + 'a) list \<Rightarrow> error + 'a list" where
  "collect [] = Inr []"
| "collect (Inl e # rest) = Inl e"
| "collect (Inr v # rest) = (case collect rest of Inl e \<Rightarrow> Inl e | Inr vs \<Rightarrow> Inr (v # vs))"

definition json_Unmarshal :: "string \<Rightarrow> error + go_int slice" where
  "json_Unmarshal data =
     (let t = json_trim data
      in if t = ''null'' then Inr None
         else if 2 \<le> length t \<and> hd t = CHR ''['' \<and> last t = CHR '']''
           then (let inner = butlast (tl t)
                 in if json_trim inner = [] then Inr (Some [])
                    else (case collect (map json_element (Split inner (CHR '',''))) of
                            Inl e \<Rightarrow> Inl e
                          | Inr vs \<Rightarrow> Inr (Some vs)))
         else Inl json_syntax_error)"

section \<open>Package database\<close>

subsection \<open>The store behind the connection\<close>

text \<open>
  The SQLite database behind \<open>SQLiteDB.db\<close>: whether the three tables exist, their rows
  in the order of their row identifiers, and for each table the largest identifier given
  out so far (\<open>AUTOINCREMENT\<close>). The column \<open>ai_relevant_articles\<close> holds text.

  What the driver answers is the environment's. \<open>faults\<close> lists, for the statements to
  come, whether the driver fails them (a lost connection, an I/O error) and with what
  error; past its end no statement fails for such a reason. \<open>clock\<close> gives the readings
  of \<open>time.Now()\<close>, \<open>ticks\<close> counts the readings taken.
\<close>

record search_results_row =
  row_id :: go_int
  row_query_id :: go_int
  row_ai_summary_answer :: string
  row_ai_relevant_articles :: string
  row_created_at :: Time

record SQLiteDB =
  schema :: bool
  articles :: "Article list"
  articles_seq :: nat
  queries :: "Query list"
  queries_seq :: nat
  search_results :: "search_results_row list"
  search_results_seq :: nat
  faults :: "error option list"
  clock :: "nat \<Rightarrow> Time"
  ticks :: nat

definition time_Now :: "SQLiteDB \<Rightarrow> Time \<times> SQLiteDB" where
  "time_Now s = (clock s (ticks s), s\<lparr>ticks := Suc (ticks s)\<rparr>)"

text \<open>One round trip to the driver: the next scheduled fault, if any, is used up.\<close>

definition driver :: "SQLiteDB \<Rightarrow> error option \<times> SQLiteDB" where
  "driver s = (case faults s of [] \<Rightarrow> (None, s) | f # fs \<Rightarrow> (f, s\<lparr>faults := fs\<rparr>))"

definition no_such_table :: error where
  "no_such_table = ErrorString ''no such table''"

definition database_full :: error where
  "database_full = ErrorString ''database or disk is full''"

definition foreign_key_failed :: error where
  "foreign_key_failed = ErrorString ''FOREIGN KEY constraint failed''"

text \<open>A statement on the tables fails when the driver does, or when the tables are missing.\<close>

definition statement :: "SQLiteDB \<Rightarrow> error option \<times> SQLiteDB" where
  "statement s =
     (case driver s of
        (Some e, s1) \<Rightarrow> (Some e, s1)
      | (None, s1) \<Rightarrow> if schema s1 then (None, s1) else (Some no_such_table, s1))"

text \<open>
  An \<open>INTEGER PRIMARY KEY AUTOINCREMENT\<close> column takes the successor of the largest
  identifier given out so far; when that was the largest 64-bit integer the insertion
  fails.
\<close>

definition seq_exhausted :: "nat \<Rightarrow> bool" where
  "seq_exhausted n = (int64_max \<le> int n)"

definition next_id :: "nat \<Rightarrow> go_int" where
  "next_id n = of_nat (Suc n)"

text \<open>Reading the rows of a result into a slice declared with \<open>var\<close>: nil when there is no row.\<close>

definition scan_rows :: "'a list \<Rightarrow> 'a slice" where
  "scan_rows rows = foldl append_slice None rows"

subsection \<open>Initialization\<close>

text \<open>\<open>createTables\<close>: one \<open>Exec\<close> of three \<open>CREATE TABLE IF NOT EXISTS\<close>.\<close>

definition createTables :: "SQLiteDB \<Rightarrow> error option \<times> SQLiteDB" where
  "createTables s =
     (case driver s of
        (Some e, s1) \<Rightarrow> (Some e, s1)
      | (None, s1) \<Rightarrow>
          if schema s1 then (None, s1)
          else (None, s1\<lparr>schema := True,
                          articles := [], articles_seq := 0,
                          queries := [], queries_seq := 0,
                          search_results := [], search_results_seq := 0\<rparr>))"

text \<open>The articles of the seed, which carry a title and a content and no identifier yet.\<close>

definition seed_catalog :: "(string \<times> string) list" where
  "seed_catalog =
     [(''Password Reset Instructions'',
       ''To reset your password: 1) Go to the login page 2) Click 'Forgot Password' 3) Enter your email address 4) Check your email for reset instructions 5) Follow the link and create a new password. The reset link expires in 24 hours.''),
      (''VPN Connection Setup'',
       ''Setting up VPN connection: 1) Download the VPN client from the IT portal 2) Install using admin credentials 3) Use your domain username and password 4) Connect to the 'Corporate-Main' server 5) Verify connection by accessing internal resources. Contact IT if you experience connectivity issues.''),
      (''Software Installation Guidelines'',
       ''For software installation: 1) Check the approved software list on the IT portal 2) Submit a software request ticket if not approved 3) Admin rights are required for installation 4) IT will remotely install if you don't have admin access 5) All installations must be from official vendors only.''),
      (''Email Configuration Troubleshooting'',
       ''Email setup issues: 1) Verify server settings - IMAP: mail.company.com port 993 SSL, SMTP: mail.company.com port 587 STARTTLS 2) Check username format: firstname.lastname@company.com 3) Ensure password is current 4) Clear email cache and restart client 5) For mobile devices, use app-specific passwords.''),
      (''Multi-Factor Authentication Setup'',
       ''MFA setup process: 1) Install Microsoft Authenticator app 2) Log into company portal 3) Navigate to Security Settings 4) Click 'Add Authentication Method' 5) Scan QR code with authenticator app 6) Enter verification code 7) MFA is now required for all company logins.''),
      (''Printer Connection Issues'',
       ''Printer troubleshooting: 1) Ensure printer is connected to corporate network 2) Install latest printer drivers from manufacturer website 3) Add printer using IP address: 192.168.1.100 4) Check print queue for stuck jobs 5) Restart print spooler service if needed 6) For Mac users, use CUPS interface.''),
      (''File Share Access Problems'',
       ''File share access: 1) Connect using '' @ [CHR 0x5C, CHR 0x5C] @ ''fileserver'' @ [CHR 0x5C] @ ''shared 2) Use domain credentials when prompted 3) Map network drive for easier access 4) Check group membership for folder permissions 5) Clear credential cache if authentication fails 6) Contact IT for permission changes.''),
      (''Remote Desktop Configuration'',
       ''Remote desktop setup: 1) Enable Remote Desktop on target computer 2) Add user to 'Remote Desktop Users' group 3) Configure firewall to allow RDP (port 3389) 4) Use Computer Name or IP address to connect 5) For external access, use VPN first 6) Use Network Level Authentication for security.''),
      (''Antivirus Software Management'',
       ''Antivirus management: 1) Corporate antivirus is automatically deployed 2) Do not install additional antivirus software 3) Scans run automatically daily at 2 AM 4) Quarantine notifications appear in system tray 5) Report false positives to IT immediately 6) Never disable real-time protection.''),
      (''Data Backup and Recovery'',
       ''Backup procedures: 1) OneDrive syncs user documents automatically 2) Critical data should be stored in designated share folders 3) Personal desktop/downloads are not backed up 4) File recovery available for 90 days 5) For urgent recovery, submit priority ticket 6) Test restore procedures quarterly.'')]"

text \<open>One \<open>INSERT INTO articles (title, content)\<close>.\<close>

definition insert_article :: "string \<Rightarrow> string \<Rightarrow> SQLiteDB \<Rightarrow> error option \<times> SQLiteDB" where
  "insert_article title content s =
     (case statement s of
        (Some e, s1) \<Rightarrow> (Some e, s1)
      | (None, s1) \<Rightarrow>
          if seq_exhausted (articles_seq s1) then (Some database_full, s1)
          else (None, s1\<lparr>articles := articles s1
                            @ [\<lparr>ID = next_id (articles_seq s1), Title = title, Content = content\<rparr>],
                          articles_seq := Suc (articles_seq s1)\<rparr>))"

text \<open>The loop of \<open>seedArticles\<close> over the seed: it stops at the first insertion that fails.\<close>

fun seed_loop :: "(string \<times> string) list \<Rightarrow> SQLiteDB \<Rightarrow> error option \<times> SQLiteDB" where
  "seed_loop [] s = (None, s)"
| "seed_loop (article # rest) s =
     (case insert_article (fst article) (snd article) s of
        (Some err, s1) \<Rightarrow>
          (Some (Wrapped (''failed to insert article '' @ [CHR 0x27] @ fst article @ [CHR 0x27]) err),
           s1)
      | (None, s1) \<Rightarrow> seed_loop rest s1)"

definition seedArticles :: "SQLiteDB \<Rightarrow> error option \<times> SQLiteDB" where
  "seedArticles s =
     (case statement s of
        (Some err, s1) \<Rightarrow> (Some err, s1)
      | (None, s1) \<Rightarrow>
          (let count = length (articles s1)
           in if count > 0 then (None, s1) else seed_loop seed_catalog s1))"

definition SQLiteDB_Initialize :: "SQLiteDB \<Rightarrow> error option \<times> SQLiteDB" where
  "SQLiteDB_Initialize s =
     (case createTables s of
        (Some err, s1) \<Rightarrow> (Some (Wrapped ''failed to create tables'' err), s1)
      | (None, s1) \<Rightarrow>
          (case seedArticles s1 of
             (Some err, s2) \<Rightarrow> (Some (Wrapped ''failed to seed articles'' err), s2)
           | (None, s2) \<Rightarrow> (None, s2)))"

subsection \<open>Articles\<close>

definition SQLiteDB_GetAllArticles :: "SQLiteDB \<Rightarrow> (error + Article slice) \<times> SQLiteDB" where
  "SQLiteDB_GetAllArticles s =
     (case statement s of
        (Some err, s1) \<Rightarrow> (Inl err, s1)
      | (None, s1) \<Rightarrow> (Inr (scan_rows (articles s1)), s1))"

definition SQLiteDB_GetArticleByID :: "go_int \<Rightarrow> SQLiteDB \<Rightarrow> (error + Article) \<times> SQLiteDB" where
  "SQLiteDB_GetArticleByID i s =
     (case statement s of
        (Some err, s1) \<Rightarrow> (Inl err, s1)
      | (None, s1) \<Rightarrow>
          (case find (\<lambda>a. ID a = i) (articles s1) of
             None \<Rightarrow> (Inl ErrNoRows, s1)
           | Some article \<Rightarrow> (Inr article, s1)))"

text \<open>
  \<open>GetArticlesByIDs\<close>: no statement is run for an empty list; else one
  \<open>SELECT ... WHERE id IN (?, ..., ?)\<close>, whose rows are those of the table, in the table's
  order, whose identifier is among the arguments.
\<close>

definition SQLiteDB_GetArticlesByIDs ::
    "go_int slice \<Rightarrow> SQLiteDB \<Rightarrow> (error + Article slice) \<times> SQLiteDB" where
  "SQLiteDB_GetArticlesByIDs ids s =
     (if len ids = 0 then (Inr (Some []), s)
      else (case statement s of
              (Some err, s1) \<Rightarrow> (Inl err, s1)
            | (None, s1) \<Rightarrow>
                (Inr (scan_rows (filter (\<lambda>a. ID a \<in> set (elems ids)) (articles s1))), s1)))"

subsection \<open>Queries\<close>

definition SQLiteDB_GetQueryByID :: "go_int \<Rightarrow> SQLiteDB \<Rightarrow> (error + Query) \<times> SQLiteDB" where
  "SQLiteDB_GetQueryByID i s =
     (case statement s of
        (Some err, s1) \<Rightarrow> (Inl err, s1)
      | (None, s1) \<Rightarrow>
          (case find (\<lambda>q. Query_ID q = i) (queries s1) of
             None \<Rightarrow> (Inl ErrNoRows, s1)
           | Some query \<Rightarrow> (Inr query, s1)))"

text \<open>
  \<open>CreateQuery\<close>: the clock is read, the row is inserted, and the row is read back by
  the identifier the insertion reports (\<open>LastInsertId\<close> of this driver does not fail).
\<close>

definition SQLiteDB_CreateQuery :: "string \<Rightarrow> SQLiteDB \<Rightarrow> (error + Query) \<times> SQLiteDB" where
  "SQLiteDB_CreateQuery query s =
     (case time_Now s of (now, s0) \<Rightarrow>
      (case statement s0 of
         (Some err, s1) \<Rightarrow> (Inl err, s1)
       | (None, s1) \<Rightarrow>
           if seq_exhausted (queries_seq s1) then (Inl database_full, s1)
           else (let i = next_id (queries_seq s1)
                 in SQLiteDB_GetQueryByID i
                      (s1\<lparr>queries := queries s1
                             @ [\<lparr>Query_ID = i, Query_Query = query, Query_CreatedAt = now\<rparr>],
                          queries_seq := Suc (queries_seq s1)\<rparr>))))"

subsection \<open>Search results\<close>

text \<open>Reading one row of \<open>search_results\<close> into a \<open>SearchResult\<close>, the column of identifiers through JSON.\<close>

definition scan_search_result :: "search_results_row \<Rightarrow> error + SearchResult" where
  "scan_search_result row =
     (case json_Unmarshal (row_ai_relevant_articles row) of
        Inl err \<Rightarrow> Inl (Wrapped ''failed to unmarshal article IDs'' err)
      | Inr ids \<Rightarrow>
          Inr \<lparr>SearchResult_ID = row_id row,
               QueryID = row_query_id row,
               AISummaryAnswer = row_ai_summary_answer row,
               AIRelevantArticles = ids,
               SearchResult_CreatedAt = row_created_at row\<rparr>)"

definition SQLiteDB_GetSearchResultByID ::
    "go_int \<Rightarrow> SQLiteDB \<Rightarrow> (error + SearchResult) \<times> SQLiteDB" where
  "SQLiteDB_GetSearchResultByID i s =
     (case statement s of
        (Some err, s1) \<Rightarrow> (Inl err, s1)
      | (None, s1) \<Rightarrow>
          (case find (\<lambda>r. row_id r = i) (search_results s1) of
             None \<Rightarrow> (Inl ErrNoRows, s1)
           | Some row \<Rightarrow> (scan_search_result row, s1)))"

text \<open>\<open>QueryRow\<close> takes the first row that the statement yields.\<close>

definition SQLiteDB_GetSearchResultByQueryID ::
    "go_int \<Rightarrow> SQLiteDB \<Rightarrow> (error + SearchResult) \<times> SQLiteDB" where
  "SQLiteDB_GetSearchResultByQueryID queryID s =
     (case statement s of
        (Some err, s1) \<Rightarrow> (Inl err, s1)
      | (None, s1) \<Rightarrow>
          (case find (\<lambda>r. row_query_id r = queryID) (search_results s1) of
             None \<Rightarrow> (Inl ErrNoRows, s1)
           | Some row \<Rightarrow> (scan_search_result row, s1)))"

text \<open>
  \<open>CreateSearchResult\<close>: the identifiers are written as JSON, the clock is read, the row
  is inserted (the connection enforces the foreign key on \<open>query_id\<close>), and the row is
  read back by its identifier.
\<close>

definition SQLiteDB_CreateSearchResult ::
    "go_int \<Rightarrow> string \<Rightarrow> go_int slice \<Rightarrow> SQLiteDB \<Rightarrow> (error + SearchResult) \<times> SQLiteDB" where
  "SQLiteDB_CreateSearchResult queryID summary relevantArticleIDs s =
     (let articleIDsJSON = json_Marshal relevantArticleIDs
      in case time_Now s of (now, s0) \<Rightarrow>
         (case statement s0 of
            (Some err, s1) \<Rightarrow> (Inl err, s1)
          | (None, s1) \<Rightarrow>
              if find (\<lambda>q. Query_ID q = queryID) (queries s1) = None
                then (Inl foreign_key_failed, s1)
              else if seq_exhausted (search_results_seq s1) then (Inl database_full, s1)
              else (let i = next_id (search_results_seq s1)
                    in SQLiteDB_GetSearchResultByID i
                         (s1\<lparr>search_results := search_results s1
                                @ [\<lparr>row_id = i,
                                    row_query_id = queryID,
                                    row_ai_summary_answer = summary,
                                    row_ai_relevant_articles = articleIDsJSON,
                                    row_created_at = now\<rparr>],
                             search_results_seq := Suc (search_results_seq s1)\<rparr>))))"

section \<open>Package service\<close>

text \<open>
  \<open>DatabaseInterface\<close> and \<open>AIServiceInterface\<close>: the methods the service calls, over
  any state \<open>'s\<close> that an implementation keeps. A method returns its result, an error or a
  value, together with the state it leaves.
\<close>

record 's DatabaseInterface =
  GetAllArticles :: "'s \<Rightarrow> (error + Article slice) \<times> 's"
  GetArticleByID :: "go_int \<Rightarrow> 's \<Rightarrow> (error + Article) \<times> 's"
  GetArticlesByIDs :: "go_int slice \<Rightarrow> 's \<Rightarrow> (error + Article slice) \<times> 's"
  CreateQuery :: "string \<Rightarrow> 's \<Rightarrow> (error + Query) \<times> 's"
  GetQueryByID :: "go_int \<Rightarrow> 's \<Rightarrow> (error + Query) \<times> 's"
  CreateSearchResult :: "go_int \<Rightarrow> string \<Rightarrow> go_int slice \<Rightarrow> 's \<Rightarrow> (error + SearchResult) \<times> 's"
  GetSearchResultByQueryID :: "go_int \<Rightarrow> 's \<Rightarrow> (error + SearchResult) \<times> 's"
  Initialize :: "'s \<Rightarrow> error option \<times> 's"

type_synonym AIServiceInterface = "string \<Rightarrow> Article slice \<Rightarrow> error + AIAnalysisResult"

record 's SearchService =
  db :: "'s DatabaseInterface"
  aiService :: AIServiceInterface

text \<open>\<open>SQLiteDB\<close> as a \<open>DatabaseInterface\<close>.\<close>

definition SQLiteDB_interface :: "SQLiteDB DatabaseInterface" where
  "SQLiteDB_interface =
     \<lparr>GetAllArticles = SQLiteDB_GetAllArticles,
      GetArticleByID = SQLiteDB_GetArticleByID,
      GetArticlesByIDs = SQLiteDB_GetArticlesByIDs,
      CreateQuery = SQLiteDB_CreateQuery,
      GetQueryByID = SQLiteDB_GetQueryByID,
      CreateSearchResult = SQLiteDB_CreateSearchResult,
      GetSearchResultByQueryID = SQLiteDB_GetSearchResultByQueryID,
      Initialize = SQLiteDB_Initialize\<rparr>"

definition NewSearchService :: "'s DatabaseInterface \<Rightarrow> AIServiceInterface \<Rightarrow> 's SearchService" where
  "NewSearchService d a = \<lparr>db = d, aiService = a\<rparr>"

definition ProcessSearchQuery ::
    "'s SearchService \<Rightarrow> string \<Rightarrow> 's \<Rightarrow> (error + SearchResponse) \<times> 's" where
  "ProcessSearchQuery svc queryText s0 =
     (case CreateQuery (db svc) queryText s0 of
        (Inl err, s1) \<Rightarrow> (Inl (Wrapped ''failed to create query'' err), s1)
      | (Inr query, s1) \<Rightarrow>
     (case GetAllArticles (db svc) s1 of
        (Inl err, s2) \<Rightarrow> (Inl (Wrapped ''failed to get articles'' err), s2)
      | (Inr allArticles, s2) \<Rightarrow>
     (case aiService svc queryText allArticles of
        Inl err \<Rightarrow> (Inl (Wrapped ''failed to analyze query'' err), s2)
      | Inr aiResult \<Rightarrow>
     (case CreateSearchResult (db svc) (Query_ID query) (Summary aiResult)
             (RelevantArticles aiResult) s2 of
        (Inl err, s3) \<Rightarrow> (Inl (Wrapped ''failed to save search result'' err), s3)
      | (Inr saved, s3) \<Rightarrow>
     (case GetArticlesByIDs (db svc) (RelevantArticles aiResult) s3 of
        (Inl err, s4) \<Rightarrow> (Inl (Wrapped ''failed to get relevant articles'' err), s4)
      | (Inr relevantArticles, s4) \<Rightarrow>
          (Inr \<lparr>Response_Query = queryText,
                Response_AISummaryAnswer = Summary aiResult,
                Response_AIRelevantArticles = relevantArticles,
                Response_QueryID = Query_ID query,
                Timestamp = Query_CreatedAt query\<rparr>, s4))))))"

definition SearchService_GetArticleByID ::
    "'s SearchService \<Rightarrow> go_int \<Rightarrow> 's \<Rightarrow> (error + Article) \<times> 's" where
  "SearchService_GetArticleByID svc i s = GetArticleByID (db svc) i s"

definition SearchService_GetAllArticles ::
    "'s SearchService \<Rightarrow> 's \<Rightarrow> (error + Article slice) \<times> 's" where
  "SearchService_GetAllArticles svc s = GetAllArticles (db svc) s"

text \<open>The messages that \<open>ProcessSearchQuery\<close> puts in front of an error, one for each step.\<close>

definition step_messages :: "string list" where
  "step_messages =
     [''failed to create query'', ''failed to get articles'', ''failed to analyze query'',
      ''failed to save search result'', ''failed to get relevant articles'']"

section \<open>Package handlers\<close>

text \<open>\<open>err.Error()\<close>.\<close>

fun error_text :: "error \<Rightarrow> string" where
  "error_text ErrSyntax = ''invalid syntax''"
| "error_text ErrRange = ''value out of range''"
| "error_text ErrNoRows = ''sql: no rows in result set''"
| "error_text (ErrorString m) = m"
| "error_text (Wrapped m e) = m @ '': '' @ error_text e"

text \<open>What a handler writes: a status code and the value encoded as the body.\<close>

datatype response_body =
    ErrorBody ErrorResponse
  | SearchBody SearchResponse
  | ArticleBody Article
  | ArticlesBody "Article slice"
  | HealthBody

record http_response =
  statusCode :: nat
  body :: response_body

definition StatusOK :: nat where
  "StatusOK = 200"

definition StatusBadRequest :: nat where
  "StatusBadRequest = 400"

definition StatusNotFound :: nat where
  "StatusNotFound = 404"

definition StatusInternalServerError :: nat where
  "StatusInternalServerError = 500"

definition sendJSONResponse :: "nat \<Rightarrow> response_body \<Rightarrow> http_response" where
  "sendJSONResponse code data = \<lparr>statusCode = code, body = data\<rparr>"

definition sendErrorResponse :: "nat \<Rightarrow> string \<Rightarrow> string \<Rightarrow> http_response" where
  "sendErrorResponse code err message =
     sendJSONResponse code (ErrorBody \<lparr>Error = err, Message = message\<rparr>)"

text \<open>
  \<open>SearchHandler.SearchQuery\<close>. \<open>decoded\<close> is what decoding the body of the request into
  a \<open>SearchRequest\<close> gave: an error, or the request (with an empty \<open>Query\<close> when the body
  has no such field).
\<close>

definition SearchQuery ::
    "'s SearchService \<Rightarrow> error + SearchRequest \<Rightarrow> 's \<Rightarrow> http_response \<times> 's" where
  "SearchQuery searchService decoded s =
     (case decoded of
        Inl err \<Rightarrow> (sendErrorResponse StatusBadRequest ''Invalid JSON'' (error_text err), s)
      | Inr req \<Rightarrow>
          if TrimSpace (Request_Query req) = ''''
            then (sendErrorResponse StatusBadRequest ''Query is required'' '''', s)
          else (case ProcessSearchQuery searchService (Request_Query req) s of
                  (Inl err, s1) \<Rightarrow>
                    (sendErrorResponse StatusInternalServerError
                       ''Failed to process search query'' (error_text err), s1)
                | (Inr response, s1) \<Rightarrow>
                    (sendJSONResponse StatusOK (SearchBody response), s1)))"

text \<open>\<open>SearchHandler.GetArticle\<close>. \<open>idStr\<close> is the \<open>id\<close> segment of the path.\<close>

definition GetArticle :: "'s SearchService \<Rightarrow> string \<Rightarrow> 's \<Rightarrow> http_response \<times> 's" where
  "GetArticle searchService idStr s =
     (case Atoi idStr of
        Inl err \<Rightarrow> (sendErrorResponse StatusBadRequest ''Invalid article ID'' '''', s)
      | Inr i \<Rightarrow>
          (case SearchService_GetArticleByID searchService i s of
             (Inl err, s1) \<Rightarrow> (sendErrorResponse StatusNotFound ''Article not found'' '''', s1)
           | (Inr article, s1) \<Rightarrow> (sendJSONResponse StatusOK (ArticleBody article), s1)))"

definition GetAllArticles_handler :: "'s SearchService \<Rightarrow> 's \<Rightarrow> http_response \<times> 's" where
  "GetAllArticles_handler searchService s =
     (case SearchService_GetAllArticles searchService s of
        (Inl err, s1) \<Rightarrow>
          (sendErrorResponse StatusInternalServerError ''Failed to get articles'' (error_text err), s1)
      | (Inr allArticles, s1) \<Rightarrow> (sendJSONResponse StatusOK (ArticlesBody allArticles), s1))"

section \<open>The constraints that the store keeps\<close>

text \<open>
  \<open>id\<close> is the primary key of each table, given out by \<open>AUTOINCREMENT\<close>: the
  identifiers of the rows are pairwise distinct, each is a positive number up to the
  largest given out so far, and that one fits 64 bits.
\<close>

definition table_wf :: "('r \<Rightarrow> go_int) \<Rightarrow> 'r list \<Rightarrow> nat \<Rightarrow> bool" where
  "table_wf key rows seq =
     (distinct (map key rows)
      \<and> (\<forall>r \<in> set rows. \<exists>n. 0 < n \<and> n \<le> seq \<and> key r = of_nat n)
      \<and> int seq \<le> int64_max)"

definition store_wf :: "SQLiteDB \<Rightarrow> bool" where
  "store_wf s =
     (table_wf ID (articles s) (articles_seq s)
      \<and> table_wf Query_ID (queries s) (queries_seq s)
      \<and> table_wf row_id (search_results s) (search_results_seq s))"

text \<open>A database file that does not exist yet, with the driver's faults and the clock to come.\<close>

definition new_store :: "error option list \<Rightarrow> (nat \<Rightarrow> Time) \<Rightarrow> SQLiteDB" where
  "new_store fs clk =
     \<lparr>schema = False,
      articles = [], articles_seq = 0,
      queries = [], queries_seq = 0,
      search_results = [], search_results_seq = 0,
      faults = fs, clock = clk, ticks = 0\<rparr>"

section \<open>Sample data\<close>

text \<open>Two articles, a store that holds them, and texts that the external model may return.\<close>

definition article_password :: Article where
  "article_password = \<lparr>ID = 1, Title = ''Password Reset'', Content = ''Click Forgot Password''\<rparr>"

definition article_vpn :: Article where
  "article_vpn = \<lparr>ID = 2, Title = ''VPN Setup'', Content = ''Use your password for the VPN''\<rparr>"

definition sample_articles :: "Article slice" where
  "sample_articles = Some [article_password, article_vpn]"

definition sample_clock :: "nat \<Rightarrow> Time" where
  "sample_clock n = 1000 + n"

definition sample_store :: "error option list \<Rightarrow> SQLiteDB" where
  "sample_store fs =
     \<lparr>schema = True,
      articles = [article_password, article_vpn], articles_seq = 2,
      queries = [], queries_seq = 0,
      search_results = [], search_results_seq = 0,
      faults = fs, clock = sample_clock, ticks = 0\<rparr>"

definition sample_query :: Query where
  "sample_query = \<lparr>Query_ID = 1, Query_Query = ''vpn'', Query_CreatedAt = 999\<rparr>"

definition store_with_query :: SQLiteDB where
  "store_with_query = (sample_store [])\<lparr>queries := [sample_query], queries_seq := 1\<rparr>"

definition io_error :: error where
  "io_error = ErrorString ''disk I/O error''"

definition reply_list_first :: string where
  "reply_list_first =
     ''Here is what I found.'' @ [CHR 0x0A]
     @ ''RELEVANT_ARTICLES: 2, x, 9,1'' @ [CHR 0x0A]
     @ ''  SUMMARY: Use the VPN client. ''"

definition reply_summary_first :: string where
  "reply_summary_first =
     ''SUMMARY: Use the VPN client.'' @ [CHR 0x0A, CHR 0x0A]
     @ ''RELEVANT_ARTICLES: 2, x, 9,1'' @ [CHR 0x0D, CHR 0x0A]"

definition reply_twice :: string where
  "reply_twice = ''SUMMARY: See the article.'' @ [CHR 0x0A] @ ''RELEVANT_ARTICLES: 1,1''"

section \<open>The heuristic strategy\<close>

lemma elems_simps [simp]: "elems None = []" "elems (Some xs) = xs"
  by (simp_all add: elems_def)

lemma elems_append_slice [simp]: "elems (append_slice s x) = elems s @ [x]"
  by (simp add: append_slice_def)

lemma mock_visit_elems:
  "elems (mock_visit (ToLower q) acc a) = elems acc @ (if spec_relevant q a then [ID a] else [])"
  by (simp add: mock_visit_def spec_relevant_def topic_keywords_def combined_text_def Let_def)

lemma mock_loop_elems:
  "elems (foldl (mock_visit (ToLower q)) acc as) = elems acc @ spec_relevant_ids q as"
proof (induction as arbitrary: acc)
  case Nil
  show ?case by (simp add: spec_relevant_ids_def)
next
  case (Cons a as)
  show ?case
    by (simp add: Cons.IH mock_visit_elems spec_relevant_ids_def)
qed

text \<open>
  C2. The heuristic strategy computes what the reference definition says: the relevant
  identifiers are those of the articles, in their order, for which some keyword of the
  closed list occurs in the lower-cased query and in the lower-cased title, one space and
  content; the summary follows the priority password, vpn, email, printer, found, not
  found; and the strategy never fails.
\<close>

theorem MockAIService_AnalyzeQuery_refines_spec:
  "\<exists>r. MockAIService_AnalyzeQuery q arts = Inr r
       \<and> elems (RelevantArticles r) = spec_relevant_ids q (elems arts)
       \<and> Summary r = spec_summary q (elems arts)"
  by (simp add: MockAIService_AnalyzeQuery_def Let_def len_def mock_loop_elems spec_summary_def)

text \<open>
  C10. When the articles have pairwise distinct identifiers, the heuristic strategy lists
  every identifier at most once, however many keywords the query and an article share.
\<close>

theorem MockAIService_AnalyzeQuery_distinct:
  assumes "distinct (map ID (elems arts))"
      and "MockAIService_AnalyzeQuery q arts = Inr r"
  shows "distinct (elems (RelevantArticles r))"
proof -
  have "elems (RelevantArticles r) = map ID (filter (spec_relevant q) (elems arts))"
    using assms(2)
    by (auto simp: MockAIService_AnalyzeQuery_def Let_def mock_loop_elems spec_relevant_ids_def)
  then show ?thesis
    using assms(1) by (simp add: distinct_map_filter)
qed

section \<open>The parser of the external model's response\<close>

lemma articleExists_loop_iff: "articleExists_loop i as \<longleftrightarrow> i \<in> ID ` set as"
  by (induction as) auto

lemma parse_token_elems:
  "elems (parse_token arts acc tok) = elems acc @ spec_token_ids (elems arts) tok"
  by (simp add: parse_token_def spec_token_ids_def articleExists_def articleExists_loop_iff
      Let_def split: sum.splits)

lemma parse_tokens_elems:
  "elems (foldl (parse_token arts) acc toks)
     = elems acc @ concat (map (spec_token_ids (elems arts)) toks)"
  by (induction toks arbitrary: acc) (simp_all add: parse_token_elems)

lemma HasPrefix_Cons: "HasPrefix s (c # p) \<longleftrightarrow> (\<exists>t. s = c # t \<and> HasPrefix t p)"
  by (cases s) (auto simp: HasPrefix_def)

lemma not_both_prefixes:
  "HasPrefix l ''SUMMARY:'' \<Longrightarrow> \<not> HasPrefix l ''RELEVANT_ARTICLES:''"
  by (auto simp: HasPrefix_Cons)

text \<open>What one pass of the outer loop does to the two local variables.\<close>

lemma parse_line_snd:
  "elems (snd (parse_line arts st line))
     = elems (snd st)
       @ (if HasPrefix (TrimSpace line) ''RELEVANT_ARTICLES:''
          then spec_line_ids (elems arts) (TrimSpace line) else [])"
proof (cases "HasPrefix (TrimSpace line) ''SUMMARY:''")
  case True
  then show ?thesis
    using not_both_prefixes [OF True] by (simp add: parse_line_def Let_def)
next
  case False
  then show ?thesis
    by (simp add: parse_line_def Let_def TrimPrefix_def spec_line_ids_def parse_tokens_elems)
qed

lemma parse_line_fst:
  "fst (parse_line arts st line)
     = (if HasPrefix (TrimSpace line) ''SUMMARY:''
        then TrimSpace (drop (length ''SUMMARY:'') (TrimSpace line)) else fst st)"
  by (simp add: parse_line_def Let_def TrimPrefix_def)

lemma parse_lines_snd:
  "elems (snd (foldl (parse_line arts) st ls))
     = elems (snd st)
       @ concat (map (spec_line_ids (elems arts))
           (filter (\<lambda>l. HasPrefix l ''RELEVANT_ARTICLES:'') (map TrimSpace ls)))"
  by (induction ls arbitrary: st) (simp_all add: parse_line_snd)

lemma parse_lines_fst:
  "fst (foldl (parse_line arts) st ls)
     = (case rev (filter (\<lambda>l. HasPrefix l ''SUMMARY:'') (map TrimSpace ls)) of
          [] \<Rightarrow> fst st
        | l # _ \<Rightarrow> TrimSpace (drop (length ''SUMMARY:'') l))"
proof (induction ls rule: rev_induct)
  case Nil
  show ?case by simp
next
  case (snoc x xs)
  show ?case
    by (simp add: parse_line_fst snoc.IH)
qed

lemma parseResponse_value:
  "parseResponse response arts
     = Inr \<lparr>Summary = spec_parsed_summary response,
           RelevantArticles = snd (foldl (parse_line arts) ('''', None)
                                     (Split response (CHR 0x0A)))\<rparr>"
  by (simp add: parseResponse_def Let_def parse_lines_fst spec_parsed_summary_def
      summary_lines_def response_lines_def split: list.splits)

lemma parseResponse_ids:
  "parseResponse response arts = Inr r
     \<Longrightarrow> elems (RelevantArticles r) = spec_parsed_ids (elems arts) response"
  by (auto simp: parseResponse_def Let_def parse_lines_snd spec_parsed_ids_def
      relevant_lines_def response_lines_def)

lemma spec_token_ids_subset: "set (spec_token_ids as tok) \<subseteq> ID ` set as"
  by (auto simp: spec_token_ids_def split: sum.splits if_splits)

lemma spec_parsed_ids_subset: "set (spec_parsed_ids as response) \<subseteq> ID ` set as"
  using spec_token_ids_subset
  by (fastforce simp: spec_parsed_ids_def spec_line_ids_def Let_def split: if_splits)

lemma fallback_summary_nonempty: "fallback_summary \<noteq> ''''"
  by (simp add: fallback_summary_def)

lemma spec_parsed_summary_nonempty: "spec_parsed_summary response \<noteq> ''''"
  by (simp add: spec_parsed_summary_def Let_def fallback_summary_nonempty split: list.splits)

text \<open>
  C9. The parser of the external model's response returns a result for every response
  text and every article set, and never an error. The summary is the text after the
  prefix of the last \<open>SUMMARY:\<close> line, or the fixed fallback text when there is no such
  line or nothing stands after the prefix. The identifiers are those named on the
  \<open>RELEVANT_ARTICLES:\<close> lines, where \<open>none\<close> or nothing names no article, a piece that
  is not a number is skipped, and so is a number that no supplied article carries. Only
  the lines with one of the two prefixes count: two responses with the same summary lines
  and the same list lines, whatever else they hold and however the two kinds are
  interleaved, parse to the same result.
\<close>

theorem parseResponse_total:
  "\<exists>r. parseResponse response arts = Inr r
       \<and> Summary r = spec_parsed_summary response
       \<and> Summary r \<noteq> ''''
       \<and> elems (RelevantArticles r) = spec_parsed_ids (elems arts) response
       \<and> (\<forall>i \<in> set (elems (RelevantArticles r)). articleExists i arts)
       \<and> (\<forall>response' r'.
            summary_lines response' = summary_lines response
            \<and> relevant_lines response' = relevant_lines response
            \<and> parseResponse response' arts = Inr r'
            \<longrightarrow> Summary r' = Summary r
                \<and> elems (RelevantArticles r') = elems (RelevantArticles r))"
proof -
  obtain r where r: "parseResponse response arts = Inr r"
    by (simp add: parseResponse_def Let_def)
  have s: "Summary r = spec_parsed_summary response"
    using r by (auto simp: parseResponse_value)
  have n: "Summary r \<noteq> ''''"
    unfolding s by (rule spec_parsed_summary_nonempty)
  have i: "elems (RelevantArticles r) = spec_parsed_ids (elems arts) response"
    by (rule parseResponse_ids [OF r])
  have e: "\<forall>i \<in> set (elems (RelevantArticles r)). articleExists i arts"
    unfolding i articleExists_def articleExists_loop_iff
    using spec_parsed_ids_subset [of "elems arts" response] by blast
  have o: "Summary r' = Summary r \<and> elems (RelevantArticles r') = elems (RelevantArticles r)"
    if sl: "summary_lines response' = summary_lines response"
      and rl: "relevant_lines response' = relevant_lines response"
      and r': "parseResponse response' arts = Inr r'" for response' r'
  proof -
    have "Summary r' = spec_parsed_summary response'"
      using r' by (auto simp: parseResponse_value)
    then have "Summary r' = Summary r"
      unfolding s spec_parsed_summary_def sl by simp
    moreover have "elems (RelevantArticles r') = spec_parsed_ids (elems arts) response'"
      by (rule parseResponse_ids [OF r'])
    then have "elems (RelevantArticles r') = elems (RelevantArticles r)"
      unfolding i spec_parsed_ids_def rl by simp
    ultimately show ?thesis by simp
  qed
  from r s n i e o show ?thesis by blast
qed

section \<open>Decimal numbers and the JSON encoding of identifier lists\<close>

lemma digit_char_is_digit: "d < 10 \<Longrightarrow> is_digit (digit_char d)"
  unfolding is_digit_def digit_char_def
  by (auto simp: less_Suc_eq numeral_eq_Suc)

lemma digit_val_digit_char: "d < 10 \<Longrightarrow> digit_val (digit_char d) = d"
  unfolding digit_val_def digit_char_def
  by (auto simp: less_Suc_eq numeral_eq_Suc)

lemma digit_char_zero: "d < 10 \<Longrightarrow> digit_char d = CHR ''0'' \<longleftrightarrow> d = 0"
  unfolding digit_char_def
  by (auto simp: less_Suc_eq numeral_eq_Suc)

lemma nat_dec_nonempty: "nat_dec n \<noteq> []"
  by (subst nat_dec.simps) simp

lemma nat_dec_digits: "list_all is_digit (nat_dec n)"
proof (induction n rule: nat_dec.induct)
  case (1 n)
  show ?case
    by (subst nat_dec.simps) (use 1 in \<open>auto simp: digit_char_is_digit\<close>)
qed

lemma decimal_snoc: "decimal (ds @ [c]) = 10 * decimal ds + digit_val c"
  by (simp add: decimal_def)

lemma decimal_nat_dec: "decimal (nat_dec n) = n"
proof (induction n rule: nat_dec.induct)
  case (1 n)
  show ?case
  proof (cases "n < 10")
    case True
    then show ?thesis
      by (subst nat_dec.simps) (simp add: decimal_def digit_val_digit_char)
  next
    case False
    then show ?thesis
      by (subst nat_dec.simps) (simp add: decimal_snoc 1 digit_val_digit_char)
  qed
qed

lemma hd_nat_dec: "hd (nat_dec n) = CHR ''0'' \<Longrightarrow> n = 0"
proof (induction n rule: nat_dec.induct)
  case (1 n)
  show ?case
  proof (cases "n < 10")
    case True
    with "1.prems" show ?thesis
      by (subst (asm) nat_dec.simps) (simp add: digit_char_zero)
  next
    case False
    with "1.prems" have "hd (nat_dec (n div 10)) = CHR ''0''"
      by (subst (asm) nat_dec.simps) (simp add: nat_dec_nonempty)
    with 1 False have "n div 10 = 0" by simp
    with False show ?thesis by simp
  qed
qed

lemma nat_dec_0: "nat_dec 0 = ''0''"
  by (subst nat_dec.simps) (simp add: digit_char_def)


lemma is_digit_chars: "is_digit c \<Longrightarrow> c \<noteq> CHR ''-'' \<and> c \<noteq> CHR ''+'' \<and> c \<noteq> CHR '','' \<and> \<not> json_space c \<and> c \<noteq> CHR ''n''"
  by (auto simp: is_digit_def json_space_def)

lemma hd_nat_dec_digit: "is_digit (hd (nat_dec n))"
  using nat_dec_digits [of n] nat_dec_nonempty [of n] by (cases "nat_dec n") auto

lemma last_nat_dec_digit: "is_digit (last (nat_dec n))"
  using nat_dec_digits [of n] nat_dec_nonempty [of n]
  by (metis last_in_set list_all_iff)

lemma sint_range64: "int64_min \<le> sint (x :: go_int) \<and> sint x \<le> int64_max"
  using sint_ge [of x] sint_lt [of x] by (simp add: int64_min_def int64_max_def)

lemma Atoi_Itoa: "Atoi (Itoa x) = Inr x"
proof (cases "sint x < 0")
  case True
  have "Atoi (CHR ''-'' # nat_dec (nat (- sint x))) = Inr x"
    using True sint_range64 [of x]
    by (simp add: Atoi_def Let_def nat_dec_nonempty nat_dec_digits decimal_nat_dec)
  with True show ?thesis by (simp add: Itoa_def)
next
  case False
  have h: "hd (nat_dec (nat (sint x))) \<noteq> CHR ''-''" "hd (nat_dec (nat (sint x))) \<noteq> CHR ''+''"
    using hd_nat_dec_digit [of "nat (sint x)"] is_digit_chars by blast+
  have "Atoi (nat_dec (nat (sint x))) = Inr x"
    using False sint_range64 [of x] h
    by (simp add: Atoi_def Let_def nat_dec_nonempty nat_dec_digits decimal_nat_dec)
  with False show ?thesis by (simp add: Itoa_def)
qed

lemma Itoa_nonempty: "Itoa x \<noteq> []"
  by (simp add: Itoa_def nat_dec_nonempty)

lemma Itoa_no_comma: "CHR '','' \<notin> set (Itoa x)"
  using nat_dec_digits is_digit_chars by (auto simp: Itoa_def list_all_iff)

lemma Itoa_hd: "\<not> json_space (hd (Itoa x)) \<and> hd (Itoa x) \<noteq> CHR ''n''"
  using hd_nat_dec_digit is_digit_chars by (auto simp: Itoa_def json_space_def)

lemma Itoa_last: "\<not> json_space (last (Itoa x))"
  using last_nat_dec_digit is_digit_chars by (auto simp: Itoa_def nat_dec_nonempty)

lemma json_trim_id:
  "s \<noteq> [] \<Longrightarrow> \<not> json_space (hd s) \<Longrightarrow> \<not> json_space (last s) \<Longrightarrow> json_trim s = s"
proof -
  assume a: "s \<noteq> []" "\<not> json_space (hd s)" "\<not> json_space (last s)"
  then have "dropWhile json_space s = s" by (cases s) auto
  moreover have "dropWhile json_space (rev s) = rev s"
    using a by (cases "rev s") (auto simp: last_rev [symmetric] hd_rev)
  ultimately show ?thesis by (simp add: json_trim_def)
qed

lemma json_int_literal_Itoa: "json_int_literal (Itoa x)"
proof (cases "sint x < 0")
  case True
  then have "nat (- sint x) \<noteq> 0" by simp
  then have "hd (nat_dec (nat (- sint x))) \<noteq> CHR ''0''"
    by (auto dest: hd_nat_dec)
  with True show ?thesis
    by (simp add: json_int_literal_def Itoa_def nat_dec_nonempty nat_dec_digits)
next
  case False
  have h: "hd (nat_dec (nat (sint x))) \<noteq> CHR ''-''"
    using hd_nat_dec_digit [of "nat (sint x)"] is_digit_chars by blast
  have "nat_dec (nat (sint x)) = ''0'' \<or> hd (nat_dec (nat (sint x))) \<noteq> CHR ''0''"
    using hd_nat_dec [of "nat (sint x)"] nat_dec_0 by fastforce
  with False h show ?thesis
    by (simp add: json_int_literal_def Itoa_def nat_dec_nonempty nat_dec_digits)
qed

lemma json_element_Itoa: "json_element (Itoa x) = Inr x"
proof -
  have t: "json_trim (Itoa x) = Itoa x"
    using Itoa_nonempty Itoa_hd Itoa_last by (intro json_trim_id) auto
  have "Itoa x \<noteq> ''null''"
    using Itoa_hd [of x] by (cases "Itoa x") auto
  then show ?thesis
    by (simp add: json_element_def t json_int_literal_Itoa Atoi_Itoa)
qed

lemma Split_no_sep: "sep \<notin> set s \<Longrightarrow> Split s sep = [s]"
  by (induction s) auto

lemma Split_append_sep:
  "sep \<notin> set x \<Longrightarrow> Split (x @ sep # rest) sep = x # Split rest sep"
  by (induction x) auto

lemma Split_join_commas:
  "ys \<noteq> [] \<Longrightarrow> \<forall>y \<in> set ys. CHR '','' \<notin> set y \<Longrightarrow> Split (join_commas ys) (CHR '','') = ys"
proof (induction ys rule: join_commas.induct)
  case 1
  then show ?case by simp
next
  case (2 x)
  then show ?case by (simp add: Split_no_sep)
next
  case (3 x y ys)
  then show ?case by (simp add: Split_append_sep)
qed

lemma join_commas_nonempty: "ys \<noteq> [] \<Longrightarrow> \<forall>y \<in> set ys. y \<noteq> [] \<Longrightarrow> join_commas ys \<noteq> []"
  by (induction ys rule: join_commas.induct) auto

lemma hd_join_commas: "ys \<noteq> [] \<Longrightarrow> hd ys \<noteq> [] \<Longrightarrow> hd (join_commas ys) = hd (hd ys)"
  by (induction ys rule: join_commas.induct) auto

lemma last_join_commas:
  "ys \<noteq> [] \<Longrightarrow> \<forall>y \<in> set ys. y \<noteq> [] \<Longrightarrow> last (join_commas ys) = last (last ys)"
  by (induction ys rule: join_commas.induct) (auto simp: join_commas_nonempty)

lemma json_trim_brackets: "json_trim (CHR ''['' # inner @ '']'') = CHR ''['' # inner @ '']''"
  by (rule json_trim_id) (simp_all add: json_space_def)

lemma json_trim_join_Itoa:
  assumes "xs \<noteq> []"
  shows "json_trim (join_commas (map Itoa xs)) = join_commas (map Itoa xs)"
proof (rule json_trim_id)
  have ne: "\<forall>y \<in> set (map Itoa xs). y \<noteq> []"
    by (simp add: Itoa_nonempty)
  show "join_commas (map Itoa xs) \<noteq> []"
    using assms ne by (intro join_commas_nonempty) auto
  show "\<not> json_space (hd (join_commas (map Itoa xs)))"
    using assms Itoa_hd by (simp add: hd_join_commas Itoa_nonempty hd_map)
  show "\<not> json_space (last (join_commas (map Itoa xs)))"
    using assms ne Itoa_last by (simp add: last_join_commas last_map)
qed

lemma json_Unmarshal_Marshal: "json_Unmarshal (json_Marshal v) = Inr v"
proof (cases v)
  case None
  then show ?thesis
    by (simp add: json_Marshal_def json_Unmarshal_def json_trim_def json_space_def)
next
  case (Some xs)
  let ?inner = "join_commas (map Itoa xs)"
  have t: "json_trim (json_Marshal v) = CHR ''['' # ?inner @ '']''"
    using json_trim_brackets [of ?inner] by (simp add: Some json_Marshal_def)
  have nn: "CHR ''['' # ?inner @ '']'' \<noteq> ''null''"
    by simp
  have inner: "butlast (tl (CHR ''['' # ?inner @ '']'')) = ?inner"
    by (simp add: butlast_append)
  show ?thesis
  proof (cases "xs = []")
    case True
    then show ?thesis
      unfolding json_Unmarshal_def t Let_def
      by (simp add: Some json_trim_def)
  next
    case False
    have sp: "Split ?inner (CHR '','') = map Itoa xs"
      using False by (intro Split_join_commas) (auto simp: Itoa_no_comma)
    have ne: "json_trim ?inner \<noteq> []"
      using False json_trim_join_Itoa [OF False] join_commas_nonempty [of "map Itoa xs"]
      by (simp add: Itoa_nonempty)
    have el: "collect (map (json_element \<circ> Itoa) xs) = Inr xs"
      by (induction xs) (simp_all add: json_element_Itoa)
    show ?thesis
      unfolding json_Unmarshal_def t Let_def inner
      using nn ne by (simp add: sp el Some)
  qed
qed

section \<open>The effect of the storage operations\<close>

lemma driver_effect: "driver s = (r, s1) \<Longrightarrow> s1 = s\<lparr>faults := tl (faults s)\<rparr>"
  by (cases s) (auto simp: driver_def split: list.splits)

lemma statement_effect:
  "statement s = (r, s1) \<Longrightarrow> s1 = s\<lparr>faults := tl (faults s)\<rparr> \<and> (r = None \<longrightarrow> schema s)"
  by (cases s) (auto simp: statement_def driver_def split: list.splits option.splits if_splits)

lemma elems_scan_rows_aux: "elems (foldl append_slice acc rows) = elems acc @ rows"
  by (induction rows arbitrary: acc) simp_all

lemma elems_scan_rows [simp]: "elems (scan_rows rows) = rows"
  by (simp add: scan_rows_def elems_scan_rows_aux)

lemma GetAllArticles_effect:
  assumes "SQLiteDB_GetAllArticles s = (r, s1)"
  shows "(\<exists>fs. s1 = s\<lparr>faults := fs\<rparr>) \<and> (\<forall>found. r = Inr found \<longrightarrow> elems found = articles s \<and> schema s)"
proof -
  obtain e s' where st: "statement s = (e, s')" by (cases "statement s")
  from statement_effect [OF st] have "s' = s\<lparr>faults := tl (faults s)\<rparr>" "e = None \<longrightarrow> schema s" by blast+
  with assms st show ?thesis
    by (cases e) (auto simp: SQLiteDB_GetAllArticles_def)
qed

lemma GetArticlesByIDs_effect:
  assumes "SQLiteDB_GetArticlesByIDs ids s = (r, s1)"
  shows "(\<exists>fs. s1 = s\<lparr>faults := fs\<rparr>)
       \<and> (\<forall>found. r = Inr found
             \<longrightarrow> elems found = filter (\<lambda>a. ID a \<in> set (elems ids)) (articles s))"
proof (cases "len ids = 0")
  case True
  then have "elems ids = []" by (simp add: len_def)
  with True assms show ?thesis
    by (auto simp: SQLiteDB_GetArticlesByIDs_def intro: exI [of _ "faults s"])
next
  case False
  obtain e s' where st: "statement s = (e, s')" by (cases "statement s")
  from statement_effect [OF st] have "s' = s\<lparr>faults := tl (faults s)\<rparr>" by blast
  with assms st False show ?thesis
    by (cases e) (auto simp: SQLiteDB_GetArticlesByIDs_def)
qed


lemma of_nat_inj64:
  assumes "int m \<le> int64_max" "int n \<le> int64_max" "(of_nat m :: go_int) = of_nat n"
  shows "m = n"
proof -
  have "int m < 2 ^ 64" "int n < 2 ^ 64"
    using assms(1,2) by (simp_all add: int64_max_def)
  then have "m < 2 ^ 64" "n < 2 ^ 64"
    using of_nat_less_numeral_power_cancel_iff by blast+
  then have "unat (of_nat m :: go_int) = m" "unat (of_nat n :: go_int) = n"
    by (simp_all add: unat_of_nat)
  with assms(3) show ?thesis by metis
qed

lemma table_wf_append:
  assumes "table_wf key rows seq" "\<not> seq_exhausted seq" "key r = next_id seq"
  shows "table_wf key (rows @ [r]) (Suc seq)"
proof -
  have lt: "int (Suc seq) \<le> int64_max"
    using assms(2) by (simp add: seq_exhausted_def)
  have fresh: "key r \<notin> key ` set rows"
  proof
    assume "key r \<in> key ` set rows"
    then obtain r' where r': "r' \<in> set rows" "key r' = key r" by auto
    with assms(1) obtain n where n: "0 < n" "n \<le> seq" "key r' = of_nat n"
      by (auto simp: table_wf_def)
    have "n = Suc seq"
      using n lt r' assms(3) by (intro of_nat_inj64) (auto simp: next_id_def)
    with n show False by simp
  qed
  have "\<forall>x \<in> set (rows @ [r]). \<exists>n. 0 < n \<and> n \<le> Suc seq \<and> key x = of_nat n"
    using assms(1,3) by (auto simp: table_wf_def next_id_def intro: le_SucI)
  with fresh lt assms(1) show ?thesis
    by (simp add: table_wf_def)
qed

lemma table_wf_fresh: "table_wf key rows seq \<Longrightarrow> \<not> seq_exhausted seq \<Longrightarrow> next_id seq \<notin> key ` set rows"
proof
  assume wf: "table_wf key rows seq" and ne: "\<not> seq_exhausted seq" and "next_id seq \<in> key ` set rows"
  then obtain r' where r': "r' \<in> set rows" "key r' = next_id seq" by auto
  with wf obtain n where n: "0 < n" "n \<le> seq" "key r' = of_nat n"
    by (auto simp: table_wf_def)
  have "int (Suc seq) \<le> int64_max"
    using ne by (simp add: seq_exhausted_def)
  then have "n = Suc seq"
    using n r' by (intro of_nat_inj64) (auto simp: next_id_def)
  with n show False by simp
qed

lemma table_wf_empty: "table_wf key [] 0"
  by (simp add: table_wf_def int64_max_def)

lemma find_append_new:
  "key r = i \<Longrightarrow> i \<notin> key ` set rows \<Longrightarrow> find (\<lambda>x. key x = i) (rows @ [r]) = Some r"
  by (induction rows) auto

lemma find_None_iff_key: "find (\<lambda>x. key x = i) rows = None \<longleftrightarrow> i \<notin> key ` set rows"
  by (auto simp: find_None_iff)

lemma statement_cases [case_names fail ok]:
  obtains e where "statement s = (Some e, s\<lparr>faults := tl (faults s)\<rparr>)"
  | "statement s = (None, s\<lparr>faults := tl (faults s)\<rparr>)" "schema s"
proof (cases "statement s")
  case (Pair r s1)
  from statement_effect [OF Pair] Pair that show ?thesis
    by (cases r) simp_all
qed

lemma GetQueryByID_effect:
  assumes "SQLiteDB_GetQueryByID i s = (r, s1)"
  shows "s1 = s\<lparr>faults := tl (faults s)\<rparr>
       \<and> (\<forall>q. r = Inr q \<longrightarrow> find (\<lambda>q. Query_ID q = i) (queries s) = Some q \<and> schema s)"
proof (cases s rule: statement_cases)
  case (fail e)
  with assms show ?thesis
    by (simp add: SQLiteDB_GetQueryByID_def) blast
next
  case ok
  show ?thesis
  proof (cases "find (\<lambda>q. Query_ID q = i) (queries s)")
    case None
    with assms ok show ?thesis
      by (simp add: SQLiteDB_GetQueryByID_def) blast
  next
    case (Some a)
    with assms ok show ?thesis
      by (simp add: SQLiteDB_GetQueryByID_def) blast
  qed
qed


text \<open>What \<open>CreateQuery\<close> leaves behind, whatever it returns.\<close>

lemma CreateQuery_effect:
  assumes "SQLiteDB_CreateQuery q s = (r, s1)"
  shows "articles s1 = articles s \<and> articles_seq s1 = articles_seq s
       \<and> search_results s1 = search_results s \<and> search_results_seq s1 = search_results_seq s
       \<and> schema s1 = schema s
       \<and> ((queries s1 = queries s \<and> queries_seq s1 = queries_seq s \<and> (\<exists>e. r = Inl e))
          \<or> (queries s1 = queries s @ [\<lparr>Query_ID = next_id (queries_seq s), Query_Query = q,
                                          Query_CreatedAt = clock s (ticks s)\<rparr>]
             \<and> queries_seq s1 = Suc (queries_seq s) \<and> \<not> seq_exhausted (queries_seq s)
             \<and> schema s
             \<and> (\<forall>query. r = Inr query
                   \<longrightarrow> find (\<lambda>x. Query_ID x = next_id (queries_seq s)) (queries s1) = Some query)))"
proof (cases "s\<lparr>ticks := Suc (ticks s)\<rparr>" rule: statement_cases)
  case (fail e)
  with assms have "r = Inl e \<and> s1 = s\<lparr>ticks := Suc (ticks s), faults := tl (faults s)\<rparr>"
    by (auto simp: SQLiteDB_CreateQuery_def time_Now_def)
  then show ?thesis by simp
next
  case ok
  show ?thesis
  proof (cases "seq_exhausted (queries_seq s)")
    case True
    with assms ok
    have "r = Inl database_full \<and> s1 = s\<lparr>ticks := Suc (ticks s), faults := tl (faults s)\<rparr>"
      by (auto simp: SQLiteDB_CreateQuery_def time_Now_def)
    then show ?thesis by simp
  next
    case False
    let ?row = "\<lparr>Query_ID = next_id (queries_seq s), Query_Query = q,
                 Query_CreatedAt = clock s (ticks s)\<rparr>"
    let ?s2 = "s\<lparr>ticks := Suc (ticks s), faults := tl (faults s),
                  queries := queries s @ [?row], queries_seq := Suc (queries_seq s)\<rparr>"
    from assms ok False
    have g: "SQLiteDB_GetQueryByID (next_id (queries_seq s)) ?s2 = (r, s1)"
      by (simp add: SQLiteDB_CreateQuery_def time_Now_def Let_def)
    from GetQueryByID_effect [OF g]
    have s1: "s1 = ?s2\<lparr>faults := tl (faults ?s2)\<rparr>"
      and rd: "\<forall>query. r = Inr query
                 \<longrightarrow> find (\<lambda>x. Query_ID x = next_id (queries_seq s)) (queries ?s2) = Some query"
      by blast+
    have f: "queries s1 = queries s @ [?row]" "queries_seq s1 = Suc (queries_seq s)"
      "articles s1 = articles s" "articles_seq s1 = articles_seq s"
      "search_results s1 = search_results s" "search_results_seq s1 = search_results_seq s"
      "schema s1 = schema s"
      by (simp_all add: s1)
    from rd have "\<forall>query. r = Inr query
                 \<longrightarrow> find (\<lambda>x. Query_ID x = next_id (queries_seq s)) (queries s1) = Some query"
      by (simp add: f)
    with f False ok(2) show ?thesis by simp
  qed
qed


lemma GetSearchResultByID_effect:
  assumes "SQLiteDB_GetSearchResultByID i s = (r, s1)"
  shows "s1 = s\<lparr>faults := tl (faults s)\<rparr>
       \<and> (\<forall>res. r = Inr res
             \<longrightarrow> (\<exists>row. find (\<lambda>x. row_id x = i) (search_results s) = Some row
                       \<and> scan_search_result row = Inr res))"
proof (cases s rule: statement_cases)
  case (fail e)
  with assms show ?thesis
    by (simp add: SQLiteDB_GetSearchResultByID_def; blast?)
next
  case ok
  show ?thesis
  proof (cases "find (\<lambda>x. row_id x = i) (search_results s)")
    case None
    with assms ok show ?thesis
      by (simp add: SQLiteDB_GetSearchResultByID_def; blast?)
  next
    case (Some a)
    with assms ok show ?thesis
      by (simp add: SQLiteDB_GetSearchResultByID_def; blast?)
  qed
qed

lemma GetSearchResultByQueryID_effect:
  assumes "SQLiteDB_GetSearchResultByQueryID i s = (r, s1)"
  shows "s1 = s\<lparr>faults := tl (faults s)\<rparr>
       \<and> (\<forall>res. r = Inr res
             \<longrightarrow> (\<exists>row. find (\<lambda>x. row_query_id x = i) (search_results s) = Some row
                       \<and> scan_search_result row = Inr res))"
proof (cases s rule: statement_cases)
  case (fail e)
  with assms show ?thesis
    by (simp add: SQLiteDB_GetSearchResultByQueryID_def; blast?)
next
  case ok
  show ?thesis
  proof (cases "find (\<lambda>x. row_query_id x = i) (search_results s)")
    case None
    with assms ok show ?thesis
      by (simp add: SQLiteDB_GetSearchResultByQueryID_def; blast?)
  next
    case (Some a)
    with assms ok show ?thesis
      by (simp add: SQLiteDB_GetSearchResultByQueryID_def; blast?)
  qed
qed

text \<open>What \<open>CreateSearchResult\<close> leaves behind, whatever it returns.\<close>

lemma CreateSearchResult_effect:
  assumes "SQLiteDB_CreateSearchResult qid summary ids s = (r, s1)"
  shows "articles s1 = articles s \<and> articles_seq s1 = articles_seq s
       \<and> queries s1 = queries s \<and> queries_seq s1 = queries_seq s
       \<and> schema s1 = schema s
       \<and> ((search_results s1 = search_results s
            \<and> search_results_seq s1 = search_results_seq s \<and> (\<exists>e. r = Inl e))
          \<or> (search_results s1
               = search_results s
                 @ [\<lparr>row_id = next_id (search_results_seq s), row_query_id = qid,
                     row_ai_summary_answer = summary,
                     row_ai_relevant_articles = json_Marshal ids,
                     row_created_at = clock s (ticks s)\<rparr>]
             \<and> search_results_seq s1 = Suc (search_results_seq s)
             \<and> \<not> seq_exhausted (search_results_seq s)
             \<and> schema s
             \<and> find (\<lambda>x. Query_ID x = qid) (queries s) \<noteq> None
             \<and> faults s1 = tl (tl (faults s))
             \<and> (\<forall>res. r = Inr res
                   \<longrightarrow> (\<exists>row. find (\<lambda>x. row_id x = next_id (search_results_seq s))
                                 (search_results s1) = Some row
                             \<and> scan_search_result row = Inr res))))"
proof (cases "s\<lparr>ticks := Suc (ticks s)\<rparr>" rule: statement_cases)
  case (fail e)
  with assms have "r = Inl e \<and> s1 = s\<lparr>ticks := Suc (ticks s), faults := tl (faults s)\<rparr>"
    by (auto simp: SQLiteDB_CreateSearchResult_def time_Now_def)
  then show ?thesis by simp
next
  case ok
  show ?thesis
  proof (cases "find (\<lambda>x. Query_ID x = qid) (queries s) = None
                 \<or> seq_exhausted (search_results_seq s)")
    case True
    with assms ok
    have "(\<exists>e. r = Inl e) \<and> s1 = s\<lparr>ticks := Suc (ticks s), faults := tl (faults s)\<rparr>"
      by (auto simp: SQLiteDB_CreateSearchResult_def time_Now_def split: if_splits)
    then show ?thesis by auto
  next
    case False
    let ?row = "\<lparr>row_id = next_id (search_results_seq s), row_query_id = qid,
                     row_ai_summary_answer = summary,
                     row_ai_relevant_articles = json_Marshal ids,
                     row_created_at = clock s (ticks s)\<rparr>"
    let ?s2 = "s\<lparr>ticks := Suc (ticks s), faults := tl (faults s),
                  search_results := search_results s @ [?row],
                  search_results_seq := Suc (search_results_seq s)\<rparr>"
    from False have nf: "(find (\<lambda>x. Query_ID x = qid) (queries s) = None) = False"
      and ne: "seq_exhausted (search_results_seq s) = False"
      by blast+
    from assms ok
    have g: "SQLiteDB_GetSearchResultByID (next_id (search_results_seq s)) ?s2 = (r, s1)"
      by (simp add: SQLiteDB_CreateSearchResult_def time_Now_def Let_def nf ne)
    from GetSearchResultByID_effect [OF g]
    have s1: "s1 = ?s2\<lparr>faults := tl (faults ?s2)\<rparr>"
      and rd: "\<forall>res. r = Inr res
                 \<longrightarrow> (\<exists>row. find (\<lambda>x. row_id x = next_id (search_results_seq s))
                               (search_results ?s2) = Some row
                           \<and> scan_search_result row = Inr res)"
      by blast+
    have f: "search_results s1 = search_results s @ [?row]"
      "search_results_seq s1 = Suc (search_results_seq s)"
      "articles s1 = articles s" "articles_seq s1 = articles_seq s"
      "queries s1 = queries s" "queries_seq s1 = queries_seq s"
      "schema s1 = schema s" "faults s1 = tl (tl (faults s))"
      by (simp_all add: s1)
    from rd have "\<forall>res. r = Inr res
                 \<longrightarrow> (\<exists>row. find (\<lambda>x. row_id x = next_id (search_results_seq s))
                               (search_results s1) = Some row
                           \<and> scan_search_result row = Inr res)"
      by (simp add: f)
    with f nf ne ok(2) show ?thesis by simp
  qed
qed

section \<open>Initialization and the constraints of the store\<close>

lemma seed_loop_effect:
  "seed_loop cat s = (r, s1) \<Longrightarrow>
     schema s1 = schema s \<and> queries s1 = queries s \<and> queries_seq s1 = queries_seq s
     \<and> search_results s1 = search_results s \<and> search_results_seq s1 = search_results_seq s
     \<and> (\<exists>new. articles s1 = articles s @ new
              \<and> (r = None \<longrightarrow> map (\<lambda>a. (Title a, Content a)) new = cat))"
proof (induction cat arbitrary: s)
  case Nil
  then show ?case by simp
next
  case (Cons a cat)
  show ?case
  proof (cases s rule: statement_cases)
    case (fail e)
    with Cons.prems
    have "r \<noteq> None \<and> s1 = s\<lparr>faults := tl (faults s)\<rparr>"
      by (auto simp: insert_article_def)
    then show ?thesis by simp
  next
    case ok
    show ?thesis
    proof (cases "seq_exhausted (articles_seq s)")
      case True
      with Cons.prems ok
      have "r \<noteq> None \<and> s1 = s\<lparr>faults := tl (faults s)\<rparr>"
        by (auto simp: insert_article_def)
      then show ?thesis by simp
    next
      case False
      let ?s2 = "s\<lparr>faults := tl (faults s),
                   articles := articles s @ [\<lparr>ID = next_id (articles_seq s), Title = fst a, Content = snd a\<rparr>],
                   articles_seq := Suc (articles_seq s)\<rparr>"
      from Cons.prems ok False have "seed_loop cat ?s2 = (r, s1)"
        by (simp add: insert_article_def)
      from Cons.IH [OF this] show ?thesis
        by auto
    qed
  qed
qed


lemma driver_cases [case_names fail ok]:
  obtains e where "driver s = (Some e, s\<lparr>faults := tl (faults s)\<rparr>)"
  | "driver s = (None, s\<lparr>faults := tl (faults s)\<rparr>)"
proof (cases "driver s")
  case (Pair r s1)
  from driver_effect [OF Pair] Pair that show ?thesis
    by (cases r) simp_all
qed

lemma createTables_effect:
  assumes "createTables s = (r, s1)"
  shows "(schema s \<or> r \<noteq> None \<longrightarrow> s1 = s\<lparr>faults := tl (faults s)\<rparr>)
       \<and> (r = None \<longrightarrow> schema s1)
       \<and> (r = None \<and> \<not> schema s
            \<longrightarrow> articles s1 = [] \<and> articles_seq s1 = 0 \<and> queries s1 = [] \<and> queries_seq s1 = 0
                \<and> search_results s1 = [] \<and> search_results_seq s1 = 0)"
proof (cases s rule: driver_cases)
  case (fail e)
  with assms have "r = Some e \<and> s1 = s\<lparr>faults := tl (faults s)\<rparr>"
    by (auto simp: createTables_def)
  then show ?thesis by simp
next
  case ok
  show ?thesis
  proof (cases "schema s")
    case True
    with assms ok have "r = None \<and> s1 = s\<lparr>faults := tl (faults s)\<rparr>"
      by (auto simp: createTables_def)
    with True show ?thesis by simp
  next
    case False
    with assms ok
    have "r = None \<and> s1 = s\<lparr>faults := tl (faults s), schema := True,
                          articles := [], articles_seq := 0,
                          queries := [], queries_seq := 0,
                          search_results := [], search_results_seq := 0\<rparr>"
      by (auto simp: createTables_def)
    with False show ?thesis by simp
  qed
qed

lemma seed_catalog_nonempty: "seed_catalog \<noteq> []"
  by (simp add: seed_catalog_def)

lemma seedArticles_effect:
  assumes "seedArticles s = (r, s1)"
  shows "schema s1 = schema s \<and> queries s1 = queries s \<and> queries_seq s1 = queries_seq s
       \<and> search_results s1 = search_results s \<and> search_results_seq s1 = search_results_seq s
       \<and> (r = None \<longrightarrow> schema s)
       \<and> (articles s \<noteq> [] \<longrightarrow> articles s1 = articles s \<and> articles_seq s1 = articles_seq s)
       \<and> (articles s = [] \<and> r = None
            \<longrightarrow> map (\<lambda>a. (Title a, Content a)) (articles s1) = seed_catalog)"
proof (cases s rule: statement_cases)
  case (fail e)
  with assms have "r = Some e \<and> s1 = s\<lparr>faults := tl (faults s)\<rparr>"
    by (auto simp: seedArticles_def)
  then show ?thesis by simp
next
  case ok
  show ?thesis
  proof (cases "articles s = []")
    case False
    with assms ok have "r = None \<and> s1 = s\<lparr>faults := tl (faults s)\<rparr>"
      by (auto simp: seedArticles_def)
    with False ok show ?thesis by simp
  next
    case True
    with assms ok have "seed_loop seed_catalog (s\<lparr>faults := tl (faults s)\<rparr>) = (r, s1)"
      by (simp add: seedArticles_def)
    from seed_loop_effect [OF this] True ok(2) show ?thesis
      by auto
  qed
qed


lemma Initialize_cases:
  assumes "SQLiteDB_Initialize s = (r, s2)"
  shows "(\<exists>e. createTables s = (Some e, s2) \<and> r = Some (Wrapped ''failed to create tables'' e))
       \<or> (\<exists>sa. createTables s = (None, sa)
              \<and> ((\<exists>e. seedArticles sa = (Some e, s2)
                       \<and> r = Some (Wrapped ''failed to seed articles'' e))
                 \<or> (seedArticles sa = (None, s2) \<and> r = None)))"
proof (cases "createTables s")
  case (Pair c sa)
  show ?thesis
  proof (cases c)
    case (Some e)
    with assms Pair show ?thesis by (simp add: SQLiteDB_Initialize_def)
  next
    case None
    obtain d sb where sd: "seedArticles sa = (d, sb)" by (cases "seedArticles sa")
    with assms Pair None show ?thesis
      by (cases d) (simp_all add: SQLiteDB_Initialize_def)
  qed
qed

lemma Initialize_ok:
  assumes "SQLiteDB_Initialize s = (None, s1)"
  shows "schema s1 \<and> articles s1 \<noteq> []
       \<and> (if schema s \<and> articles s \<noteq> [] then articles s1 = articles s
          else map (\<lambda>a. (Title a, Content a)) (articles s1) = seed_catalog)"
proof -
  from Initialize_cases [OF assms] obtain sa
    where ct: "createTables s = (None, sa)" and sd: "seedArticles sa = (None, s1)"
    by auto
  note c = createTables_effect [OF ct] and d = seedArticles_effect [OF sd]
  have sch: "schema s1" using c d by simp
  show ?thesis
  proof (cases "schema s \<and> articles s \<noteq> []")
    case True
    with c have "articles sa = articles s" by simp
    with True d sch show ?thesis by simp
  next
    case False
    have "articles sa = [] \<or> articles sa \<noteq> [] \<and> schema s \<and> articles sa = articles s"
      using c by (cases "schema s") auto
    with False have e: "articles sa = []" by auto
    with d have m: "map (\<lambda>a. (Title a, Content a)) (articles s1) = seed_catalog" by simp
    then have "articles s1 \<noteq> []" using seed_catalog_nonempty by auto
    with False m sch show ?thesis by simp
  qed
qed

text \<open>
  C7. Initializing a store twice: when the first initialization succeeds, the second one,
  whether it succeeds or fails, leaves the tables and every row as they are, so the
  number of articles after it is the number after the first. The first initialization
  seeds the catalog when the tables were missing or the article table was empty, and
  leaves the articles alone when there were some.
\<close>

theorem Initialize_idempotent:
  assumes "SQLiteDB_Initialize s = (None, s1)"
      and "SQLiteDB_Initialize s1 = (r, s2)"
  shows "schema s1 \<and> schema s2
       \<and> articles s2 = articles s1
       \<and> length (articles s2) = length (articles s1)
       \<and> articles s1 \<noteq> []
       \<and> queries s2 = queries s1 \<and> search_results s2 = search_results s1
       \<and> (if schema s \<and> articles s \<noteq> [] then articles s1 = articles s
          else map (\<lambda>a. (Title a, Content a)) (articles s1) = seed_catalog)"
proof -
  note first = Initialize_ok [OF assms(1)]
  have same: "schema s2 \<and> articles s2 = articles s1 \<and> queries s2 = queries s1
              \<and> search_results s2 = search_results s1"
  proof -
    from Initialize_cases [OF assms(2)]
    consider e where "createTables s1 = (Some e, s2)"
      | sa d where "createTables s1 = (None, sa)" "seedArticles sa = (d, s2)"
      by blast
    then show ?thesis
    proof cases
      case 1
      from createTables_effect [OF 1] first show ?thesis by simp
    next
      case 2
      from createTables_effect [OF 2(1)] first
      have sa: "sa = s1\<lparr>faults := tl (faults s1)\<rparr>" by simp
      from seedArticles_effect [OF 2(2)] first show ?thesis by (simp add: sa)
    qed
  qed
  with first show ?thesis by simp
qed


lemma store_wf_new_store: "store_wf (new_store fs clk)"
  by (simp add: store_wf_def new_store_def table_wf_empty)

lemma store_wf_faults [simp]: "store_wf (s\<lparr>faults := fs\<rparr>) = store_wf s"
  by (simp add: store_wf_def)

lemma store_wf_createTables:
  assumes "store_wf s" "createTables s = (r, s1)"
  shows "store_wf s1"
proof (cases "schema s \<or> r \<noteq> None")
  case True
  with createTables_effect [OF assms(2)] assms(1) show ?thesis by auto
next
  case False
  with createTables_effect [OF assms(2)] show ?thesis
    by (simp add: store_wf_def table_wf_empty)
qed

lemma store_wf_seed_loop:
  "store_wf s \<Longrightarrow> seed_loop cat s = (r, s1) \<Longrightarrow> store_wf s1"
proof (induction cat arbitrary: s)
  case Nil
  then show ?case by simp
next
  case (Cons a cat)
  show ?case
  proof (cases s rule: statement_cases)
    case (fail e)
    with Cons.prems have "s1 = s\<lparr>faults := tl (faults s)\<rparr>"
      by (auto simp: insert_article_def)
    with Cons.prems(1) show ?thesis by simp
  next
    case ok
    show ?thesis
    proof (cases "seq_exhausted (articles_seq s)")
      case True
      with Cons.prems ok have "s1 = s\<lparr>faults := tl (faults s)\<rparr>"
        by (auto simp: insert_article_def)
      with Cons.prems(1) show ?thesis by simp
    next
      case False
      let ?row = "\<lparr>ID = next_id (articles_seq s), Title = fst a, Content = snd a\<rparr>"
      let ?s2 = "s\<lparr>faults := tl (faults s),
                   articles := articles s @ [?row],
                   articles_seq := Suc (articles_seq s)\<rparr>"
      from Cons.prems ok False have l: "seed_loop cat ?s2 = (r, s1)"
        by (simp add: insert_article_def)
      have "table_wf ID (articles s) (articles_seq s)"
        using Cons.prems(1) by (simp add: store_wf_def)
      from table_wf_append [OF this False, of ?row]
      have "table_wf ID (articles s @ [?row]) (Suc (articles_seq s))"
        by simp
      with Cons.prems(1) have "store_wf ?s2"
        by (simp add: store_wf_def)
      from Cons.IH [OF this l] show ?thesis .
    qed
  qed
qed

lemma store_wf_seedArticles:
  assumes "store_wf s" "seedArticles s = (r, s1)"
  shows "store_wf s1"
proof (cases s rule: statement_cases)
  case (fail e)
  with assms(2) have "s1 = s\<lparr>faults := tl (faults s)\<rparr>"
    by (auto simp: seedArticles_def)
  with assms(1) show ?thesis by simp
next
  case ok
  show ?thesis
  proof (cases "articles s = []")
    case False
    with assms(2) ok have "s1 = s\<lparr>faults := tl (faults s)\<rparr>"
      by (auto simp: seedArticles_def)
    with assms(1) show ?thesis by simp
  next
    case True
    with assms(2) ok have l: "seed_loop seed_catalog (s\<lparr>faults := tl (faults s)\<rparr>) = (r, s1)"
      by (simp add: seedArticles_def)
    have w: "store_wf (s\<lparr>faults := tl (faults s)\<rparr>)"
      using assms(1) by simp
    from store_wf_seed_loop [OF w l] show ?thesis .
  qed
qed

lemma store_wf_Initialize:
  assumes "store_wf s" "SQLiteDB_Initialize s = (r, s1)"
  shows "store_wf s1"
  using Initialize_cases [OF assms(2)] assms(1) store_wf_createTables store_wf_seedArticles
  by blast

lemma store_wf_CreateQuery:
  assumes "store_wf s" "SQLiteDB_CreateQuery q s = (r, s1)"
  shows "store_wf s1"
proof -
  note e = CreateQuery_effect [OF assms(2)]
  have "table_wf Query_ID (queries s1) (queries_seq s1)"
  proof (cases "queries s1 = queries s \<and> queries_seq s1 = queries_seq s")
    case True
    with assms(1) show ?thesis by (simp add: store_wf_def)
  next
    case False
    with e have "queries s1 = queries s @ [\<lparr>Query_ID = next_id (queries_seq s), Query_Query = q,
                                          Query_CreatedAt = clock s (ticks s)\<rparr>]"
      and "queries_seq s1 = Suc (queries_seq s)" and "\<not> seq_exhausted (queries_seq s)"
      by auto
    with assms(1) show ?thesis
      by (simp add: store_wf_def table_wf_append)
  qed
  with e assms(1) show ?thesis by (simp add: store_wf_def)
qed

lemma store_wf_CreateSearchResult:
  assumes "store_wf s" "SQLiteDB_CreateSearchResult qid summary ids s = (r, s1)"
  shows "store_wf s1"
proof -
  note e = CreateSearchResult_effect [OF assms(2)]
  have "table_wf row_id (search_results s1) (search_results_seq s1)"
  proof (cases "search_results s1 = search_results s
                 \<and> search_results_seq s1 = search_results_seq s")
    case True
    with assms(1) show ?thesis by (simp add: store_wf_def)
  next
    case False
    with e have "search_results s1
               = search_results s
                 @ [\<lparr>row_id = next_id (search_results_seq s), row_query_id = qid,
                     row_ai_summary_answer = summary,
                     row_ai_relevant_articles = json_Marshal ids,
                     row_created_at = clock s (ticks s)\<rparr>]"
      and "search_results_seq s1 = Suc (search_results_seq s)"
      and "\<not> seq_exhausted (search_results_seq s)"
      by auto
    with assms(1) show ?thesis
      by (simp add: store_wf_def table_wf_append)
  qed
  with e assms(1) show ?thesis by (simp add: store_wf_def)
qed

text \<open>The operations that only read leave the tables as they are.\<close>

lemma GetArticleByID_effect:
  assumes "SQLiteDB_GetArticleByID i s = (r, s1)"
  shows "s1 = s\<lparr>faults := tl (faults s)\<rparr>
       \<and> (\<forall>a. r = Inr a \<longrightarrow> find (\<lambda>x. ID x = i) (articles s) = Some a \<and> schema s)"
proof (cases s rule: statement_cases)
  case (fail e)
  with assms show ?thesis
    by (simp add: SQLiteDB_GetArticleByID_def; blast?)
next
  case ok
  show ?thesis
  proof (cases "find (\<lambda>x. ID x = i) (articles s)")
    case None
    with assms ok show ?thesis
      by (simp add: SQLiteDB_GetArticleByID_def; blast?)
  next
    case (Some a)
    with assms ok show ?thesis
      by (simp add: SQLiteDB_GetArticleByID_def; blast?)
  qed
qed

lemma store_wf_reads:
  assumes "store_wf s"
  shows "SQLiteDB_GetAllArticles s = (r1, s1) \<Longrightarrow> store_wf s1"
    and "SQLiteDB_GetArticleByID i s = (r2, s2) \<Longrightarrow> store_wf s2"
    and "SQLiteDB_GetArticlesByIDs ids s = (r3, s3) \<Longrightarrow> store_wf s3"
    and "SQLiteDB_GetQueryByID i s = (r4, s4) \<Longrightarrow> store_wf s4"
    and "SQLiteDB_GetSearchResultByQueryID i s = (r5, s5) \<Longrightarrow> store_wf s5"
proof -
  show "SQLiteDB_GetAllArticles s = (r1, s1) \<Longrightarrow> store_wf s1"
    using assms by (auto dest!: GetAllArticles_effect)
  show "SQLiteDB_GetArticleByID i s = (r2, s2) \<Longrightarrow> store_wf s2"
    using assms by (auto dest!: GetArticleByID_effect)
  show "SQLiteDB_GetArticlesByIDs ids s = (r3, s3) \<Longrightarrow> store_wf s3"
    using assms by (auto dest!: GetArticlesByIDs_effect)
  show "SQLiteDB_GetQueryByID i s = (r4, s4) \<Longrightarrow> store_wf s4"
    using assms by (auto dest!: GetQueryByID_effect)
  show "SQLiteDB_GetSearchResultByQueryID i s = (r5, s5) \<Longrightarrow> store_wf s5"
    using assms by (auto dest!: GetSearchResultByQueryID_effect)
qed

section \<open>Fetching articles and storing search results\<close>

lemma length_filter_key:
  assumes "distinct (map key rows)"
  shows "length (filter (\<lambda>r. key r \<in> A) rows) = card (A \<inter> key ` set rows)"
proof -
  have d: "distinct (map key (filter (\<lambda>r. key r \<in> A) rows))"
    using assms by (rule distinct_map_filter)
  have "length (filter (\<lambda>r. key r \<in> A) rows) = length (map key (filter (\<lambda>r. key r \<in> A) rows))"
    by simp
  also have "\<dots> = card (set (map key (filter (\<lambda>r. key r \<in> A) rows)))"
    using d by (simp only: distinct_card)
  also have "set (map key (filter (\<lambda>r. key r \<in> A) rows)) = A \<inter> key ` set rows"
    by auto
  finally show ?thesis .
qed

text \<open>
  C6. Fetching articles by a list of identifiers, on a table whose identifiers are
  pairwise distinct (\<open>id\<close> is its primary key). For an empty list the result is the
  empty slice and no statement is run: the store, with the faults the driver has in
  wait, is as before. When the operation returns articles, they are rows of the table,
  their identifiers are exactly those of the list that the table holds, and no article
  and no identifier comes twice. The operation fails only when its statement does: an
  identifier without an article is left out and is no error.
\<close>

theorem GetArticlesByIDs_subset:
  assumes "distinct (map ID (articles s))"
      and "SQLiteDB_GetArticlesByIDs ids s = (r, s1)"
  shows "(len ids = 0 \<longrightarrow> r = Inr (Some []) \<and> s1 = s)
       \<and> (\<forall>found. r = Inr found
             \<longrightarrow> set (elems found) \<subseteq> set (articles s)
                 \<and> ID ` set (elems found) = set (elems ids) \<inter> ID ` set (articles s)
                 \<and> distinct (map ID (elems found))
                 \<and> distinct (elems found))
       \<and> ((\<exists>e. r = Inl e) \<longleftrightarrow> len ids \<noteq> 0 \<and> fst (statement s) \<noteq> None)"
proof -
  have empty: "len ids = 0 \<longrightarrow> r = Inr (Some []) \<and> s1 = s"
    using assms(2) by (auto simp: SQLiteDB_GetArticlesByIDs_def)
  have found: "set (elems found) \<subseteq> set (articles s)
                 \<and> ID ` set (elems found) = set (elems ids) \<inter> ID ` set (articles s)
                 \<and> distinct (map ID (elems found))
                 \<and> distinct (elems found)" if "r = Inr found" for found
  proof -
    from GetArticlesByIDs_effect [OF assms(2)] that
    have f: "elems found = filter (\<lambda>a. ID a \<in> set (elems ids)) (articles s)" by blast
    have "distinct (map ID (elems found))"
      unfolding f using assms(1) by (rule distinct_map_filter)
    moreover from this have "distinct (elems found)"
      by (simp add: distinct_map)
    ultimately show ?thesis
      unfolding f by auto
  qed
  have err: "(\<exists>e. r = Inl e) \<longleftrightarrow> len ids \<noteq> 0 \<and> fst (statement s) \<noteq> None"
  proof (cases "len ids = 0")
    case True
    with empty show ?thesis by simp
  next
    case False
    show ?thesis
    proof (cases s rule: statement_cases)
      case (fail e)
      with assms(2) False show ?thesis
        by (auto simp: SQLiteDB_GetArticlesByIDs_def)
    next
      case ok
      with assms(2) False show ?thesis
        by (auto simp: SQLiteDB_GetArticlesByIDs_def)
    qed
  qed
  from empty found err show ?thesis by blast
qed


lemma find_snoc:
  "find P (xs @ [x]) = (case find P xs of None \<Rightarrow> (if P x then Some x else None) | Some y \<Rightarrow> Some y)"
  by (induction xs) auto

lemma scan_search_result_Marshal:
  "scan_search_result \<lparr>row_id = i, row_query_id = qid, row_ai_summary_answer = summary,
                       row_ai_relevant_articles = json_Marshal ids, row_created_at = t\<rparr>
     = Inr \<lparr>SearchResult_ID = i, QueryID = qid, AISummaryAnswer = summary,
            AIRelevantArticles = ids, SearchResult_CreatedAt = t\<rparr>"
  by (simp add: scan_search_result_def json_Unmarshal_Marshal)

text \<open>
  C5. A list of identifiers survives the JSON text it is stored as: decoding the
  encoding of a slice gives the slice back, nil, empty or not, in the same order. So
  when a search result is created for a query that has none yet, in a store that keeps
  its constraints, the record returned carries the list it was given, and fetching by
  the query's identifier returns that same record, unless the driver fails that
  statement.
\<close>

theorem SearchResult_roundtrip:
  assumes wf: "store_wf s"
      and create: "SQLiteDB_CreateSearchResult qid summary ids s = (Inr created, s1)"
      and first: "find (\<lambda>x. row_query_id x = qid) (search_results s) = None"
      and nofault: "fst (driver s1) = None"
  shows "json_Unmarshal (json_Marshal ids) = Inr ids
       \<and> AIRelevantArticles created = ids
       \<and> QueryID created = qid
       \<and> (\<exists>s2. SQLiteDB_GetSearchResultByQueryID qid s1 = (Inr created, s2))"
proof -
  let ?i = "next_id (search_results_seq s)"
  let ?row = "\<lparr>row_id = ?i, row_query_id = qid, row_ai_summary_answer = summary,
               row_ai_relevant_articles = json_Marshal ids, row_created_at = clock s (ticks s)\<rparr>"
  from CreateSearchResult_effect [OF create]
  have rows: "search_results s1 = search_results s @ [?row]"
    and ne: "\<not> seq_exhausted (search_results_seq s)"
    and sch: "schema s1"
    and rd: "\<exists>row. find (\<lambda>x. row_id x = ?i) (search_results s1) = Some row
                    \<and> scan_search_result row = Inr created"
    by auto
  have "table_wf row_id (search_results s) (search_results_seq s)"
    using wf by (simp add: store_wf_def)
  from table_wf_fresh [OF this ne]
  have "find (\<lambda>x. row_id x = ?i) (search_results s @ [?row]) = Some ?row"
    by (intro find_append_new) simp_all
  with rd rows have "scan_search_result ?row = Inr created"
    by simp
  then have created: "created = \<lparr>SearchResult_ID = ?i, QueryID = qid, AISummaryAnswer = summary,
            AIRelevantArticles = ids, SearchResult_CreatedAt = clock s (ticks s)\<rparr>"
    by (simp add: scan_search_result_Marshal)
  have byq: "find (\<lambda>x. row_query_id x = qid) (search_results s1) = Some ?row"
    by (simp add: rows find_snoc first)
  obtain d s' where d: "driver s1 = (d, s')" by (cases "driver s1")
  with nofault have dn: "d = None" by simp
  from driver_effect [OF d] have s': "s' = s1\<lparr>faults := tl (faults s1)\<rparr>" .
  have st: "statement s1 = (None, s')"
    using d dn sch by (simp add: statement_def s')
  have "SQLiteDB_GetSearchResultByQueryID qid s1 = (Inr created, s')"
    using st byq by (simp add: SQLiteDB_GetSearchResultByQueryID_def s' created scan_search_result_Marshal)
  then show ?thesis
    using created json_Unmarshal_Marshal by auto
qed

section \<open>Processing a search query\<close>

lemma ProcessSearchQuery_cases:
  assumes "ProcessSearchQuery svc q s0 = (r, s')"
  shows "(\<exists>e. CreateQuery (db svc) q s0 = (Inl e, s')
            \<and> r = Inl (Wrapped ''failed to create query'' e))
       \<or> (\<exists>query s1. CreateQuery (db svc) q s0 = (Inr query, s1)
            \<and> ((\<exists>e. GetAllArticles (db svc) s1 = (Inl e, s')
                     \<and> r = Inl (Wrapped ''failed to get articles'' e))
               \<or> (\<exists>allArticles s2. GetAllArticles (db svc) s1 = (Inr allArticles, s2)
                    \<and> ((\<exists>e. aiService svc q allArticles = Inl e \<and> s' = s2
                             \<and> r = Inl (Wrapped ''failed to analyze query'' e))
                       \<or> (\<exists>aiResult. aiService svc q allArticles = Inr aiResult
                            \<and> ((\<exists>e. CreateSearchResult (db svc) (Query_ID query) (Summary aiResult)
                                       (RelevantArticles aiResult) s2 = (Inl e, s')
                                     \<and> r = Inl (Wrapped ''failed to save search result'' e))
                               \<or> (\<exists>saved s3. CreateSearchResult (db svc) (Query_ID query)
                                       (Summary aiResult) (RelevantArticles aiResult) s2
                                         = (Inr saved, s3)
                                    \<and> ((\<exists>e. GetArticlesByIDs (db svc) (RelevantArticles aiResult) s3
                                               = (Inl e, s')
                                             \<and> r = Inl (Wrapped ''failed to get relevant articles'' e))
                                       \<or> (\<exists>relevantArticles.
                                             GetArticlesByIDs (db svc) (RelevantArticles aiResult) s3
                                               = (Inr relevantArticles, s')
                                             \<and> r = Inr \<lparr>Response_Query = q,
                                                  Response_AISummaryAnswer = Summary aiResult,
                                                  Response_AIRelevantArticles = relevantArticles,
                                                  Response_QueryID = Query_ID query,
                                                  Timestamp = Query_CreatedAt query\<rparr>)))))))))"
  using assms
  by (auto simp: ProcessSearchQuery_def split: prod.splits sum.splits)


lemma ProcessSearchQuery_elim [consumes 1, case_names create fetch_all analyze save fetch ok]:
  assumes "ProcessSearchQuery svc q s0 = (r, s')"
  obtains
    e where "CreateQuery (db svc) q s0 = (Inl e, s')"
      "r = Inl (Wrapped ''failed to create query'' e)"
  | query s1 e where "CreateQuery (db svc) q s0 = (Inr query, s1)"
      "GetAllArticles (db svc) s1 = (Inl e, s')"
      "r = Inl (Wrapped ''failed to get articles'' e)"
  | query s1 allArticles e where "CreateQuery (db svc) q s0 = (Inr query, s1)"
      "GetAllArticles (db svc) s1 = (Inr allArticles, s')"
      "aiService svc q allArticles = Inl e"
      "r = Inl (Wrapped ''failed to analyze query'' e)"
  | query s1 allArticles s2 aiResult e where "CreateQuery (db svc) q s0 = (Inr query, s1)"
      "GetAllArticles (db svc) s1 = (Inr allArticles, s2)"
      "aiService svc q allArticles = Inr aiResult"
      "CreateSearchResult (db svc) (Query_ID query) (Summary aiResult)
         (RelevantArticles aiResult) s2 = (Inl e, s')"
      "r = Inl (Wrapped ''failed to save search result'' e)"
  | query s1 allArticles s2 aiResult saved s3 e where "CreateQuery (db svc) q s0 = (Inr query, s1)"
      "GetAllArticles (db svc) s1 = (Inr allArticles, s2)"
      "aiService svc q allArticles = Inr aiResult"
      "CreateSearchResult (db svc) (Query_ID query) (Summary aiResult)
         (RelevantArticles aiResult) s2 = (Inr saved, s3)"
      "GetArticlesByIDs (db svc) (RelevantArticles aiResult) s3 = (Inl e, s')"
      "r = Inl (Wrapped ''failed to get relevant articles'' e)"
  | query s1 allArticles s2 aiResult saved s3 relevantArticles where
      "CreateQuery (db svc) q s0 = (Inr query, s1)"
      "GetAllArticles (db svc) s1 = (Inr allArticles, s2)"
      "aiService svc q allArticles = Inr aiResult"
      "CreateSearchResult (db svc) (Query_ID query) (Summary aiResult)
         (RelevantArticles aiResult) s2 = (Inr saved, s3)"
      "GetArticlesByIDs (db svc) (RelevantArticles aiResult) s3 = (Inr relevantArticles, s')"
      "r = Inr \<lparr>Response_Query = q,
                Response_AISummaryAnswer = Summary aiResult,
                Response_AIRelevantArticles = relevantArticles,
                Response_QueryID = Query_ID query,
                Timestamp = Query_CreatedAt query\<rparr>"
  using ProcessSearchQuery_cases [OF assms]
  apply (elim disjE exE conjE)
  subgoal by (rule that(1); simp)
  subgoal by (rule that(2); simp)
  subgoal by (rule that(3); simp)
  subgoal by (rule that(4); simp)
  subgoal by (rule that(5); simp)
  subgoal by (rule that(6); simp)
  done

lemma sqlite_service_simps [simp]:
  "db (NewSearchService d a) = d"
  "aiService (NewSearchService d a) = a"
  "CreateQuery SQLiteDB_interface = SQLiteDB_CreateQuery"
  "GetAllArticles SQLiteDB_interface = SQLiteDB_GetAllArticles"
  "CreateSearchResult SQLiteDB_interface = SQLiteDB_CreateSearchResult"
  "GetArticlesByIDs SQLiteDB_interface = SQLiteDB_GetArticlesByIDs"
  "GetArticleByID SQLiteDB_interface = SQLiteDB_GetArticleByID"
  by (simp_all add: NewSearchService_def SQLiteDB_interface_def)

text \<open>The query that a successful \<open>CreateQuery\<close> leaves as the last row.\<close>

lemma CreateQuery_ok:
  assumes "SQLiteDB_CreateQuery q s = (Inr query, s1)"
  shows "queries s1 = queries s @ [\<lparr>Query_ID = next_id (queries_seq s), Query_Query = q,
                                      Query_CreatedAt = clock s (ticks s)\<rparr>]
       \<and> articles s1 = articles s \<and> search_results s1 = search_results s"
  using CreateQuery_effect [OF assms] by auto

lemma CreateSearchResult_ok:
  assumes "SQLiteDB_CreateSearchResult qid summary ids s = (Inr saved, s1)"
  shows "search_results s1
           = search_results s
             @ [\<lparr>row_id = next_id (search_results_seq s), row_query_id = qid,
                 row_ai_summary_answer = summary,
                 row_ai_relevant_articles = json_Marshal ids,
                 row_created_at = clock s (ticks s)\<rparr>]
       \<and> articles s1 = articles s \<and> queries s1 = queries s"
  using CreateSearchResult_effect [OF assms] by auto

lemma CreateSearchResult_failed:
  assumes "SQLiteDB_CreateSearchResult qid summary ids s = (Inl e, s1)"
  shows "(\<exists>new. search_results s1 = search_results s @ new)
       \<and> articles s1 = articles s \<and> queries s1 = queries s"
  using CreateSearchResult_effect [OF assms] by auto

lemma GetAllArticles_frame:
  assumes "SQLiteDB_GetAllArticles s = (r, s1)"
  shows "articles s1 = articles s \<and> queries s1 = queries s \<and> search_results s1 = search_results s"
  using GetAllArticles_effect [OF assms] by auto

lemma GetArticlesByIDs_frame:
  assumes "SQLiteDB_GetArticlesByIDs ids s = (r, s1)"
  shows "articles s1 = articles s \<and> queries s1 = queries s \<and> search_results s1 = search_results s"
  using GetArticlesByIDs_effect [OF assms] by auto


lemma CreateQuery_id:
  assumes "SQLiteDB_CreateQuery q s = (Inr query, s1)"
  shows "Query_ID query = next_id (queries_seq s)"
proof -
  from CreateQuery_effect [OF assms]
  have "find (\<lambda>x. Query_ID x = next_id (queries_seq s)) (queries s1) = Some query"
    by auto
  then show ?thesis
    by (auto simp: find_Some_iff)
qed

text \<open>What a run of \<open>ProcessSearchQuery\<close> on the SQLite storage leaves in the tables.\<close>

lemma ProcessSearchQuery_sqlite_tables:
  assumes "ProcessSearchQuery (NewSearchService SQLiteDB_interface ai) q s = (r, s')"
  shows "articles s' = articles s
       \<and> (\<exists>new. queries s' = queries s @ new)
       \<and> (\<exists>new. search_results s' = search_results s @ new)
       \<and> (\<forall>m e. r = Inl (Wrapped m e) \<and> m \<noteq> ''failed to create query''
             \<longrightarrow> queries s' = queries s @ [\<lparr>Query_ID = next_id (queries_seq s), Query_Query = q,
                                               Query_CreatedAt = clock s (ticks s)\<rparr>])
       \<and> (\<forall>e. r = Inl (Wrapped ''failed to get relevant articles'' e)
             \<longrightarrow> (\<exists>row. search_results s' = search_results s @ [row]
                       \<and> row_query_id row = next_id (queries_seq s)))
       \<and> (\<forall>response. r = Inr response
             \<longrightarrow> queries s' = queries s @ [\<lparr>Query_ID = Response_QueryID response, Query_Query = q,
                                               Query_CreatedAt = clock s (ticks s)\<rparr>]
                 \<and> (store_wf s \<longrightarrow> Timestamp response = clock s (ticks s))
                 \<and> (\<exists>row. search_results s' = search_results s @ [row]
                       \<and> row_query_id row = Response_QueryID response
                       \<and> row_ai_summary_answer row = Response_AISummaryAnswer response))"
  using assms
proof (cases rule: ProcessSearchQuery_elim)
  case (create e)
  then have c: "SQLiteDB_CreateQuery q s = (Inl e, s')" by simp
  from CreateQuery_effect [OF c] create(2) show ?thesis by auto
next
  case (fetch_all query s1 e)
  then have c: "SQLiteDB_CreateQuery q s = (Inr query, s1)"
    and g: "SQLiteDB_GetAllArticles s1 = (Inl e, s')" by simp_all
  from CreateQuery_ok [OF c] GetAllArticles_frame [OF g] fetch_all(3) show ?thesis by simp
next
  case (analyze query s1 allArticles e)
  then have c: "SQLiteDB_CreateQuery q s = (Inr query, s1)"
    and g: "SQLiteDB_GetAllArticles s1 = (Inr allArticles, s')" by simp_all
  from CreateQuery_ok [OF c] GetAllArticles_frame [OF g] analyze(4) show ?thesis by simp
next
  case (save query s1 allArticles s2 aiResult e)
  then have c: "SQLiteDB_CreateQuery q s = (Inr query, s1)"
    and g: "SQLiteDB_GetAllArticles s1 = (Inr allArticles, s2)"
    and r: "SQLiteDB_CreateSearchResult (Query_ID query) (Summary aiResult)
              (RelevantArticles aiResult) s2 = (Inl e, s')" by simp_all
  from CreateQuery_ok [OF c] GetAllArticles_frame [OF g] CreateSearchResult_failed [OF r] save(5)
  show ?thesis by simp
next
  case (fetch query s1 allArticles s2 aiResult saved s3 e)
  then have c: "SQLiteDB_CreateQuery q s = (Inr query, s1)"
    and g: "SQLiteDB_GetAllArticles s1 = (Inr allArticles, s2)"
    and r: "SQLiteDB_CreateSearchResult (Query_ID query) (Summary aiResult)
              (RelevantArticles aiResult) s2 = (Inr saved, s3)"
    and f: "SQLiteDB_GetArticlesByIDs (RelevantArticles aiResult) s3 = (Inl e, s')" by simp_all
  from CreateQuery_ok [OF c] GetAllArticles_frame [OF g] CreateSearchResult_ok [OF r]
    GetArticlesByIDs_frame [OF f] CreateQuery_id [OF c] fetch(6)
  show ?thesis by simp
next
  case (ok query s1 allArticles s2 aiResult saved s3 relevantArticles)
  then have c: "SQLiteDB_CreateQuery q s = (Inr query, s1)"
    and g: "SQLiteDB_GetAllArticles s1 = (Inr allArticles, s2)"
    and r: "SQLiteDB_CreateSearchResult (Query_ID query) (Summary aiResult)
              (RelevantArticles aiResult) s2 = (Inr saved, s3)"
    and f: "SQLiteDB_GetArticlesByIDs (RelevantArticles aiResult) s3 = (Inr relevantArticles, s')"
    by simp_all
  let ?row = "\<lparr>Query_ID = next_id (queries_seq s), Query_Query = q,
               Query_CreatedAt = clock s (ticks s)\<rparr>"
  from CreateQuery_effect [OF c]
  have fd: "find (\<lambda>x. Query_ID x = next_id (queries_seq s)) (queries s1) = Some query"
    and q1: "queries s1 = queries s @ [?row]"
    and ne: "\<not> seq_exhausted (queries_seq s)"
    by auto
  have ts: "Timestamp response = clock s (ticks s)" if wf: "store_wf s" "r = Inr response"
    for response
  proof -
    have "table_wf Query_ID (queries s) (queries_seq s)"
      using wf(1) by (simp add: store_wf_def)
    from table_wf_fresh [OF this ne]
    have "find (\<lambda>x. Query_ID x = next_id (queries_seq s)) (queries s @ [?row]) = Some ?row"
      by (intro find_append_new) simp_all
    with fd q1 have "query = ?row" by simp
    with ok(6) wf(2) show ?thesis by auto
  qed
  from ts CreateQuery_ok [OF c] GetAllArticles_frame [OF g] CreateSearchResult_ok [OF r]
    GetArticlesByIDs_frame [OF f] CreateQuery_id [OF c] ok(6)
  show ?thesis by simp
qed


lemma distinct_step_messages: "distinct step_messages"
  by (simp add: step_messages_def)

text \<open>
  C1. Processing a search query, for any storage and any analysis behind the two
  interfaces: the five steps run in their order, the first step that fails ends the
  operation, and the error returned is that step's error behind that step's message
  (the five messages are pairwise distinct); otherwise the response is built from the
  query text, the analysis' summary, the articles fetched, and the identifier and the
  time of the query created. On the SQLite storage nothing is undone: the articles are
  untouched, no row of \<open>queries\<close> or \<open>search_results\<close> is removed, after a failure of any
  step but the first the new query is the last row of \<open>queries\<close>, after a failure of the
  last step the new search result is the last row of \<open>search_results\<close>, and after a
  success both are.
\<close>

theorem ProcessSearchQuery_steps:
  fixes svc :: "'s SearchService"
  assumes any: "ProcessSearchQuery svc q s0 = (r, s')"
      and sqlite: "ProcessSearchQuery (NewSearchService SQLiteDB_interface ai) q t = (rt, t')"
  shows "distinct step_messages
       \<and> ((\<exists>e. CreateQuery (db svc) q s0 = (Inl e, s')
            \<and> r = Inl (Wrapped ''failed to create query'' e))
       \<or> (\<exists>query s1. CreateQuery (db svc) q s0 = (Inr query, s1)
            \<and> ((\<exists>e. GetAllArticles (db svc) s1 = (Inl e, s')
                     \<and> r = Inl (Wrapped ''failed to get articles'' e))
               \<or> (\<exists>allArticles s2. GetAllArticles (db svc) s1 = (Inr allArticles, s2)
                    \<and> ((\<exists>e. aiService svc q allArticles = Inl e \<and> s' = s2
                             \<and> r = Inl (Wrapped ''failed to analyze query'' e))
                       \<or> (\<exists>aiResult. aiService svc q allArticles = Inr aiResult
                            \<and> ((\<exists>e. CreateSearchResult (db svc) (Query_ID query) (Summary aiResult)
                                       (RelevantArticles aiResult) s2 = (Inl e, s')
                                     \<and> r = Inl (Wrapped ''failed to save search result'' e))
                               \<or> (\<exists>saved s3. CreateSearchResult (db svc) (Query_ID query)
                                       (Summary aiResult) (RelevantArticles aiResult) s2
                                         = (Inr saved, s3)
                                    \<and> ((\<exists>e. GetArticlesByIDs (db svc) (RelevantArticles aiResult) s3
                                               = (Inl e, s')
                                             \<and> r = Inl (Wrapped ''failed to get relevant articles'' e))
                                       \<or> (\<exists>relevantArticles.
                                             GetArticlesByIDs (db svc) (RelevantArticles aiResult) s3
                                               = (Inr relevantArticles, s')
                                             \<and> r = Inr \<lparr>Response_Query = q,
                                                  Response_AISummaryAnswer = Summary aiResult,
                                                  Response_AIRelevantArticles = relevantArticles,
                                                  Response_QueryID = Query_ID query,
                                                  Timestamp = Query_CreatedAt query\<rparr>))))))))))
       \<and> (articles t' = articles t
       \<and> (\<exists>new. queries t' = queries t @ new)
       \<and> (\<exists>new. search_results t' = search_results t @ new)
       \<and> (\<forall>m e. rt = Inl (Wrapped m e) \<and> m \<noteq> ''failed to create query''
             \<longrightarrow> queries t' = queries t @ [\<lparr>Query_ID = next_id (queries_seq t), Query_Query = q,
                                               Query_CreatedAt = clock t (ticks t)\<rparr>])
       \<and> (\<forall>e. rt = Inl (Wrapped ''failed to get relevant articles'' e)
             \<longrightarrow> (\<exists>row. search_results t' = search_results t @ [row]
                       \<and> row_query_id row = next_id (queries_seq t)))
       \<and> (\<forall>response. rt = Inr response
             \<longrightarrow> queries t' = queries t @ [\<lparr>Query_ID = Response_QueryID response, Query_Query = q,
                                               Query_CreatedAt = clock t (ticks t)\<rparr>]
                 \<and> (store_wf t \<longrightarrow> Timestamp response = clock t (ticks t))
                 \<and> (\<exists>row. search_results t' = search_results t @ [row]
                       \<and> row_query_id row = Response_QueryID response
                       \<and> row_ai_summary_answer row = Response_AISummaryAnswer response)))"
  apply (rule conjI)
   apply (rule distinct_step_messages)
  apply (rule conjI)
   apply (rule ProcessSearchQuery_cases [OF any])
  apply (rule ProcessSearchQuery_sqlite_tables [OF sqlite])
  done

text \<open>
  C4, as the code has it. When a search query is processed with success on the SQLite
  storage, whose article identifiers are pairwise distinct, the articles of the response
  are rows of the article table, each with an identifier that the analysis returned and
  none twice, and their number is the number of distinct identifiers that the analysis
  returned and the table holds. It is the length of the analysis' list when that list
  has no identifier twice and none that the table lacks.
\<close>

theorem ProcessSearchQuery_relevant_articles:
  assumes key: "distinct (map ID (articles s))"
      and run: "ProcessSearchQuery (NewSearchService SQLiteDB_interface ai) q s = (Inr response, s')"
  shows "\<exists>allArticles aiResult.
           elems allArticles = articles s
         \<and> ai q allArticles = Inr aiResult
         \<and> length (elems (Response_AIRelevantArticles response))
             = card (set (elems (RelevantArticles aiResult)) \<inter> ID ` set (articles s))
         \<and> (\<forall>a \<in> set (elems (Response_AIRelevantArticles response)).
                ID a \<in> set (elems (RelevantArticles aiResult)) \<and> a \<in> set (articles s))
         \<and> distinct (map ID (elems (Response_AIRelevantArticles response)))
         \<and> (distinct (elems (RelevantArticles aiResult))
              \<and> set (elems (RelevantArticles aiResult)) \<subseteq> ID ` set (articles s)
            \<longrightarrow> length (elems (Response_AIRelevantArticles response))
                = len (RelevantArticles aiResult))"
  using run
proof (cases rule: ProcessSearchQuery_elim)
  case (ok query s1 allArticles s2 aiResult saved s3 relevantArticles)
  then have c: "SQLiteDB_CreateQuery q s = (Inr query, s1)"
    and g: "SQLiteDB_GetAllArticles s1 = (Inr allArticles, s2)"
    and a: "ai q allArticles = Inr aiResult"
    and r: "SQLiteDB_CreateSearchResult (Query_ID query) (Summary aiResult)
              (RelevantArticles aiResult) s2 = (Inr saved, s3)"
    and f: "SQLiteDB_GetArticlesByIDs (RelevantArticles aiResult) s3 = (Inr relevantArticles, s')"
    and resp: "Response_AIRelevantArticles response = relevantArticles"
    by simp_all
  let ?ids = "set (elems (RelevantArticles aiResult))"
  have a1: "articles s1 = articles s" using CreateQuery_ok [OF c] by simp
  have a2: "articles s2 = articles s" using GetAllArticles_frame [OF g] a1 by simp
  have a3: "articles s3 = articles s" using CreateSearchResult_ok [OF r] a2 by simp
  have all: "elems allArticles = articles s"
    using GetAllArticles_effect [OF g] a1 by simp
  have rel: "elems relevantArticles = filter (\<lambda>x. ID x \<in> ?ids) (articles s)"
    using GetArticlesByIDs_effect [OF f] a3 by simp
  have n: "length (elems relevantArticles) = card (?ids \<inter> ID ` set (articles s))"
    unfolding rel using key by (rule length_filter_key)
  have d: "distinct (map ID (elems relevantArticles))"
    unfolding rel using key by (rule distinct_map_filter)
  have m: "\<forall>x \<in> set (elems relevantArticles). ID x \<in> ?ids \<and> x \<in> set (articles s)"
    unfolding rel by simp
  have e: "length (elems relevantArticles) = len (RelevantArticles aiResult)"
    if "distinct (elems (RelevantArticles aiResult))" "?ids \<subseteq> ID ` set (articles s)"
  proof -
    from that(2) have "?ids \<inter> ID ` set (articles s) = ?ids" by blast
    with n that(1) show ?thesis by (simp add: len_def distinct_card)
  qed
  show ?thesis
    apply (rule exI [of _ allArticles])
    apply (rule exI [of _ aiResult])
    using all a n d m e by (simp add: resp)
qed simp_all

section \<open>The handlers\<close>

lemma TrimLeftSpace_blank: "blank q \<Longrightarrow> TrimLeftSpace q = []"
proof (induction q rule: blank.induct)
  case 1
  show ?case by simp
next
  case (2 a s)
  show ?case
  proof (cases "asciiSpace a")
    case True
    with 2 show ?thesis by simp
  next
    case na: False
    show ?thesis
    proof (cases s)
      case Nil
      with na "2.prems" show ?thesis by simp
    next
      case s: (Cons b s')
      show ?thesis
      proof (cases "space2 a b")
        case True
        with na s 2 show ?thesis by simp
      next
        case n2: False
        show ?thesis
        proof (cases s')
          case Nil
          with na s n2 "2.prems" show ?thesis by simp
        next
          case s': (Cons c s'')
          with na s n2 "2.prems" have "space3 a b c" "blank s''"
            by (simp_all split: if_splits)
          with na s n2 s' "2.IH"(3) show ?thesis by simp
        qed
      qed
    qed
  qed
qed

lemma TrimSpace_blank: "blank q \<Longrightarrow> TrimSpace q = []"
  by (simp add: TrimSpace_def TrimLeftSpace_blank)

text \<open>
  C3. A search request whose query text is empty or holds white space only is answered
  with status 400 and the error \<open>Query is required\<close>, and the state of the storage is
  the state before the request, whatever service and storage stand behind the handler:
  no operation of the service has run, and no query has been recorded.
\<close>

theorem SearchQuery_blank_rejected:
  assumes "blank (Request_Query req)"
  shows "SearchQuery svc (Inr req) s
           = (\<lparr>statusCode = 400,
               body = ErrorBody \<lparr>Error = ''Query is required'', Message = ''''\<rparr>\<rparr>, s)"
  using assms
  by (simp add: SearchQuery_def TrimSpace_blank sendErrorResponse_def sendJSONResponse_def
      StatusBadRequest_def)

text \<open>
  What \<open>GetArticle\<close> answers where the lookup does not fail for the storage's sake: a
  path segment that \<open>Atoi\<close> rejects is answered with status 400 and the storage is not
  touched; when the lookup returns an article the answer is status 200 with that article;
  and on the SQLite storage an integer that no article carries is answered with status
  404.
\<close>

lemma GetArticle_status:
  "(\<forall>e. Atoi idStr = Inl e
        \<longrightarrow> GetArticle svc idStr s
            = (\<lparr>statusCode = 400,
                body = ErrorBody \<lparr>Error = ''Invalid article ID'', Message = ''''\<rparr>\<rparr>, s))
   \<and> (\<forall>i a s1. Atoi idStr = Inr i \<and> GetArticleByID (db svc) i s = (Inr a, s1)
        \<longrightarrow> GetArticle svc idStr s = (\<lparr>statusCode = 200, body = ArticleBody a\<rparr>, s1))
   \<and> (\<forall>i ai. Atoi idStr = Inr i \<and> i \<notin> ID ` set (articles t)
        \<longrightarrow> statusCode (fst (GetArticle (NewSearchService SQLiteDB_interface ai) idStr t)) = 404)"
proof -
  have sq: "statusCode (fst (GetArticle (NewSearchService SQLiteDB_interface ai) idStr t)) = 404"
    if "Atoi idStr = Inr i" "i \<notin> ID ` set (articles t)" for i ai
  proof -
    from that(2) have nf: "find (\<lambda>a. ID a = i) (articles t) = None"
      by (simp add: find_None_iff_key)
    show ?thesis
    proof (cases t rule: statement_cases)
      case (fail e)
      with that(1) show ?thesis
        by (simp add: GetArticle_def SearchService_GetArticleByID_def NewSearchService_def
            SQLiteDB_interface_def SQLiteDB_GetArticleByID_def sendErrorResponse_def
            sendJSONResponse_def StatusNotFound_def)
    next
      case ok
      with that(1) nf show ?thesis
        by (simp add: GetArticle_def SearchService_GetArticleByID_def NewSearchService_def
            SQLiteDB_interface_def SQLiteDB_GetArticleByID_def sendErrorResponse_def
            sendJSONResponse_def StatusNotFound_def)
    qed
  qed
  show ?thesis
    using sq
    by (simp add: GetArticle_def SearchService_GetArticleByID_def sendErrorResponse_def
        sendJSONResponse_def StatusNotFound_def StatusBadRequest_def StatusOK_def)
qed

section \<open>Concrete runs\<close>

text \<open>
  The theorems above, applied to the sample data by evaluating the operations on it, and
  two further runs: an analysis that names an article twice, and a lookup of an existing
  article that the driver fails.
\<close>

lemma table_wf_sample_articles: "table_wf ID [article_password, article_vpn] 2"
proof -
  have "\<exists>n. 0 < n \<and> n \<le> 2 \<and> ID article_password = of_nat n"
    by (rule exI [of _ 1]) (simp add: article_password_def)
  moreover have "\<exists>n. 0 < n \<and> n \<le> 2 \<and> ID article_vpn = of_nat n"
    by (rule exI [of _ 2]) (simp add: article_vpn_def)
  ultimately show ?thesis
    by (simp add: table_wf_def int64_max_def article_password_def article_vpn_def)
qed

lemma table_wf_sample_query: "table_wf Query_ID [sample_query] 1"
proof -
  have "\<exists>n. 0 < n \<and> n \<le> 1 \<and> Query_ID sample_query = of_nat n"
    by (rule exI [of _ 1]) (simp add: sample_query_def)
  then show ?thesis
    by (simp add: table_wf_def int64_max_def)
qed

lemma store_wf_sample_store: "store_wf (sample_store fs)"
  using table_wf_sample_articles
  by (simp add: store_wf_def sample_store_def table_wf_empty)

lemma store_wf_store_with_query: "store_wf store_with_query"
  using table_wf_sample_articles table_wf_sample_query
  by (simp add: store_wf_def store_with_query_def sample_store_def table_wf_empty)

theorem MockAIService_AnalyzeQuery_refines_spec_witness:
  "MockAIService_AnalyzeQuery ''My PASSWORD and vpn'' sample_articles
     = Inr \<lparr>Summary = summary_password, RelevantArticles = Some [1, 2]\<rparr>
   \<and> spec_relevant_ids ''My PASSWORD and vpn'' (elems sample_articles) = [1, 2]
   \<and> spec_summary ''My PASSWORD and vpn'' (elems sample_articles) = summary_password"
proof -
  have run: "MockAIService_AnalyzeQuery ''My PASSWORD and vpn'' sample_articles
     = Inr \<lparr>Summary = summary_password, RelevantArticles = Some [1, 2]\<rparr>"
    by code_simp
  from MockAIService_AnalyzeQuery_refines_spec [of "''My PASSWORD and vpn''" sample_articles] run
  show ?thesis by auto
qed

theorem MockAIService_AnalyzeQuery_distinct_witness:
  "distinct (map ID (elems sample_articles))
   \<and> MockAIService_AnalyzeQuery ''vpn password'' sample_articles
       = Inr \<lparr>Summary = summary_password, RelevantArticles = Some [1, 2]\<rparr>
   \<and> distinct (elems (RelevantArticles
        \<lparr>Summary = summary_password, RelevantArticles = Some [1, 2 :: go_int]\<rparr>))"
proof -
  have d: "distinct (map ID (elems sample_articles))"
    by (simp add: sample_articles_def article_password_def article_vpn_def)
  have run: "MockAIService_AnalyzeQuery ''vpn password'' sample_articles
       = Inr \<lparr>Summary = summary_password, RelevantArticles = Some [1, 2]\<rparr>"
    by code_simp
  from MockAIService_AnalyzeQuery_distinct [OF d run] d run show ?thesis
    by (intro conjI)
qed

theorem parseResponse_total_witness:
  "summary_lines reply_summary_first = summary_lines reply_list_first
   \<and> relevant_lines reply_summary_first = relevant_lines reply_list_first
   \<and> parseResponse reply_list_first sample_articles
       = Inr \<lparr>Summary = ''Use the VPN client.'', RelevantArticles = Some [2, 1]\<rparr>
   \<and> (\<exists>r'. parseResponse reply_summary_first sample_articles = Inr r'
          \<and> Summary r' = ''Use the VPN client.''
          \<and> elems (RelevantArticles r') = [2, 1])"
proof -
  have sl: "summary_lines reply_summary_first = summary_lines reply_list_first"
    by code_simp
  have rl: "relevant_lines reply_summary_first = relevant_lines reply_list_first"
    by code_simp
  have run: "parseResponse reply_list_first sample_articles
       = Inr \<lparr>Summary = ''Use the VPN client.'', RelevantArticles = Some [2, 1]\<rparr>"
    by code_simp
  obtain r' where r': "parseResponse reply_summary_first sample_articles = Inr r'"
    using parseResponse_total [of reply_summary_first sample_articles] by blast
  from parseResponse_total [of reply_list_first sample_articles] run sl rl r'
  have "Summary r' = ''Use the VPN client.'' \<and> elems (RelevantArticles r') = [2, 1]"
    by fastforce
  with sl rl run r' show ?thesis by blast
qed

theorem ProcessSearchQuery_steps_witness:
  "fst (ProcessSearchQuery (NewSearchService SQLiteDB_interface MockAIService_AnalyzeQuery)
          ''vpn'' (sample_store [None, None, Some io_error]))
     = Inl (Wrapped ''failed to get articles'' io_error)
   \<and> queries (snd (ProcessSearchQuery
          (NewSearchService SQLiteDB_interface MockAIService_AnalyzeQuery)
          ''vpn'' (sample_store [None, None, Some io_error])))
       = [\<lparr>Query_ID = 1, Query_Query = ''vpn'', Query_CreatedAt = 1000\<rparr>]
   \<and> articles (snd (ProcessSearchQuery
          (NewSearchService SQLiteDB_interface MockAIService_AnalyzeQuery)
          ''vpn'' (sample_store [None, None, Some io_error])))
       = [article_password, article_vpn]"
proof -
  let ?svc = "NewSearchService SQLiteDB_interface MockAIService_AnalyzeQuery"
  let ?t = "sample_store [None, None, Some io_error]"
  let ?run = "ProcessSearchQuery ?svc ''vpn'' ?t"
  have run: "?run = (fst ?run, snd ?run)" by simp
  have r: "fst ?run = Inl (Wrapped ''failed to get articles'' io_error)"
    by code_simp
  note th = ProcessSearchQuery_steps [OF run run]
  from th have "articles (snd ?run) = articles ?t" by blast
  then have a: "articles (snd ?run) = [article_password, article_vpn]"
    by (simp add: sample_store_def)
  from th r have "queries (snd ?run)
      = queries ?t @ [\<lparr>Query_ID = next_id (queries_seq ?t), Query_Query = ''vpn'',
                        Query_CreatedAt = clock ?t (ticks ?t)\<rparr>]"
    by simp
  then have q: "queries (snd ?run)
       = [\<lparr>Query_ID = 1, Query_Query = ''vpn'', Query_CreatedAt = 1000\<rparr>]"
    by (simp add: sample_store_def next_id_def sample_clock_def)
  from r q a show ?thesis by (intro conjI)
qed

theorem SearchQuery_blank_rejected_witness:
  "SearchQuery (NewSearchService SQLiteDB_interface MockAIService_AnalyzeQuery)
     (Inr \<lparr>Request_Query = [CHR 0x20, CHR 0x09, CHR 0xC2, CHR 0xA0, CHR 0x0A, CHR 0xE3, CHR 0x80, CHR 0x80]\<rparr>)
     (sample_store [])
     = (\<lparr>statusCode = 400,
         body = ErrorBody \<lparr>Error = ''Query is required'', Message = ''''\<rparr>\<rparr>, sample_store [])"
  by (rule SearchQuery_blank_rejected) code_simp

theorem ProcessSearchQuery_relevant_articles_witness:
  "\<exists>response s'.
     ProcessSearchQuery (NewSearchService SQLiteDB_interface MockAIService_AnalyzeQuery)
       ''vpn password'' (sample_store []) = (Inr response, s')
     \<and> Response_AIRelevantArticles response = Some [article_password, article_vpn]
     \<and> length (elems (Response_AIRelevantArticles response)) = 2
     \<and> distinct (map ID (elems (Response_AIRelevantArticles response)))"
proof -
  let ?svc = "NewSearchService SQLiteDB_interface MockAIService_AnalyzeQuery"
  let ?run = "ProcessSearchQuery ?svc ''vpn password'' (sample_store [])"
  let ?response = "\<lparr>Response_Query = ''vpn password'',
                    Response_AISummaryAnswer = summary_password,
                    Response_AIRelevantArticles = Some [article_password, article_vpn],
                    Response_QueryID = 1, Timestamp = 1000\<rparr>"
  have "fst ?run = Inr ?response" by code_simp
  then have run: "?run = (Inr ?response, snd ?run)"
    by (metis prod.collapse)
  have key: "distinct (map ID (articles (sample_store [])))"
    by (simp add: sample_store_def article_password_def article_vpn_def)
  from ProcessSearchQuery_relevant_articles [OF key run]
  have "distinct (map ID (elems (Response_AIRelevantArticles ?response)))" by blast
  with run show ?thesis
    by (intro exI [of _ ?response] exI [of _ "snd ?run"]) simp
qed

theorem ProcessSearchQuery_relevant_articles_counterexample:
  "GeminiService_AnalyzeQuery (Inr (Some reply_twice)) ''reset'' sample_articles
     = Inr \<lparr>Summary = ''See the article.'', RelevantArticles = Some [1, 1]\<rparr>
   \<and> articleExists 1 sample_articles
   \<and> len (Some [1, 1 :: go_int]) = 2
   \<and> fst (ProcessSearchQuery
        (NewSearchService SQLiteDB_interface (GeminiService_AnalyzeQuery (Inr (Some reply_twice))))
        ''reset'' (sample_store []))
       = Inr \<lparr>Response_Query = ''reset'',
              Response_AISummaryAnswer = ''See the article.'',
              Response_AIRelevantArticles = Some [article_password],
              Response_QueryID = 1, Timestamp = 1000\<rparr>
   \<and> len (Some [article_password]) = 1"
  by code_simp

theorem SearchResult_roundtrip_witness:
  "store_wf store_with_query
   \<and> find (\<lambda>x. row_query_id x = 1) (search_results store_with_query) = None
   \<and> (\<exists>created s1 s2.
         SQLiteDB_CreateSearchResult 1 ''Use the VPN client.'' (Some [1, 2, 3]) store_with_query
           = (Inr created, s1)
         \<and> SQLiteDB_GetSearchResultByQueryID 1 s1 = (Inr created, s2)
         \<and> AIRelevantArticles created = Some [1, 2, 3])"
proof -
  let ?run = "SQLiteDB_CreateSearchResult 1 ''Use the VPN client.'' (Some [1, 2, 3])
                store_with_query"
  let ?created = "\<lparr>SearchResult_ID = 1, QueryID = 1, AISummaryAnswer = ''Use the VPN client.'',
                   AIRelevantArticles = Some [1, 2, 3], SearchResult_CreatedAt = 1000\<rparr>"
  have "fst ?run = Inr ?created" by code_simp
  then have run: "?run = (Inr ?created, snd ?run)"
    by (metis prod.collapse)
  have first: "find (\<lambda>x. row_query_id x = 1) (search_results store_with_query) = None"
    by (simp add: store_with_query_def sample_store_def)
  have nofault: "fst (driver (snd ?run)) = None"
    by code_simp
  from SearchResult_roundtrip [OF store_wf_store_with_query run first nofault]
  obtain s2 where "SQLiteDB_GetSearchResultByQueryID 1 (snd ?run) = (Inr ?created, s2)"
    by blast
  with run first store_wf_store_with_query show ?thesis
    by (intro conjI exI [of _ ?created] exI [of _ "snd ?run"] exI [of _ s2]) simp_all
qed

theorem GetArticlesByIDs_subset_witness:
  "distinct (map ID (articles (sample_store [])))
   \<and> (\<exists>found s1. SQLiteDB_GetArticlesByIDs (Some [2, 99, 2]) (sample_store []) = (Inr found, s1)
          \<and> elems found = [article_vpn]
          \<and> distinct (map ID (elems found)))
   \<and> SQLiteDB_GetArticlesByIDs (Some []) (sample_store [Some io_error])
       = (Inr (Some []), sample_store [Some io_error])"
proof -
  let ?run = "SQLiteDB_GetArticlesByIDs (Some [2, 99, 2]) (sample_store [])"
  have key: "distinct (map ID (articles (sample_store fs)))" for fs
    by (simp add: sample_store_def article_password_def article_vpn_def)
  have "fst ?run = Inr (Some [article_vpn])" by code_simp
  then have run: "?run = (Inr (Some [article_vpn]), snd ?run)"
    by (metis prod.collapse)
  from GetArticlesByIDs_subset [OF key run]
  have d: "distinct (map ID (elems (Some [article_vpn])))" by blast
  let ?none = "SQLiteDB_GetArticlesByIDs (Some []) (sample_store [Some io_error])"
  have none: "?none = (fst ?none, snd ?none)" by simp
  from GetArticlesByIDs_subset [OF key none]
  have "fst ?none = Inr (Some []) \<and> snd ?none = sample_store [Some io_error]"
    by (simp add: len_def)
  then have e: "?none = (Inr (Some []), sample_store [Some io_error])"
    by (metis prod.collapse)
  from key run d e show ?thesis
    by (intro conjI exI [of _ "Some [article_vpn]"] exI [of _ "snd ?run"]) simp_all
qed

theorem Initialize_idempotent_witness:
  "\<exists>s1 s2. SQLiteDB_Initialize (new_store [] sample_clock) = (None, s1)
         \<and> SQLiteDB_Initialize s1 = (None, s2)
         \<and> length (articles s1) = 10
         \<and> length (articles s2) = 10
         \<and> articles s2 = articles s1"
proof -
  let ?first = "SQLiteDB_Initialize (new_store [] sample_clock)"
  let ?second = "SQLiteDB_Initialize (snd ?first)"
  have "fst ?first = None" by code_simp
  then have first: "?first = (None, snd ?first)"
    by (metis prod.collapse)
  have "fst ?second = None" by code_simp
  then have second: "?second = (None, snd ?second)"
    by (metis prod.collapse)
  have n: "length (articles (snd ?first)) = 10" by code_simp
  from Initialize_idempotent [OF first second]
  have "articles (snd ?second) = articles (snd ?first)" by blast
  with first second n show ?thesis
    by (intro exI [of _ "snd ?first"] exI [of _ "snd ?second"]) simp
qed

lemma GetArticle_status_example:
  "Atoi ''abc'' = Inl ErrSyntax
   \<and> GetArticle (NewSearchService SQLiteDB_interface MockAIService_AnalyzeQuery) ''abc''
        (sample_store [])
       = (\<lparr>statusCode = 400,
           body = ErrorBody \<lparr>Error = ''Invalid article ID'', Message = ''''\<rparr>\<rparr>, sample_store [])
   \<and> Atoi ''999'' = Inr 999
   \<and> statusCode (fst (GetArticle
          (NewSearchService SQLiteDB_interface MockAIService_AnalyzeQuery) ''999''
          (sample_store []))) = 404"
proof -
  let ?svc = "NewSearchService SQLiteDB_interface MockAIService_AnalyzeQuery"
  have a: "Atoi ''abc'' = Inl ErrSyntax" by code_simp
  have b: "Atoi ''999'' = Inr 999" by code_simp
  have c: "(999 :: go_int) \<notin> ID ` set (articles (sample_store []))"
    by (simp add: sample_store_def article_password_def article_vpn_def)
  note th = GetArticle_status [of "''abc''" ?svc "sample_store []" "sample_store []"]
  note th' = GetArticle_status [of "''999''" ?svc "sample_store []" "sample_store []"]
  from th a have x: "GetArticle ?svc ''abc'' (sample_store [])
       = (\<lparr>statusCode = 400,
           body = ErrorBody \<lparr>Error = ''Invalid article ID'', Message = ''''\<rparr>\<rparr>, sample_store [])"
    by blast
  from th' b c have y: "statusCode (fst (GetArticle ?svc ''999'' (sample_store []))) = 404"
    by blast
  from a x b y show ?thesis by (intro conjI)
qed

text \<open>
  C8. A request for one article is to be answered with status 400 when the path segment
  is no integer, with status 404 and never 200 when it is an integer that no article
  carries, and with status 500 when the storage fails, the failure told apart from an
  article that is not found. \<open>GetArticle\<close> does the first two (\<open>GetArticle_status\<close>) and
  not the third. Here article 1 exists and the driver fails the lookup with an I/O error,
  which the storage returns as it is, while it returns \<open>sql.ErrNoRows\<close> for an article
  that is not there: \<open>GetArticle\<close> answers 404 \<open>Article not found\<close>, where
  \<open>GetAllArticles\<close> and \<open>SearchQuery\<close> answer 500 for the same failure of the storage.
\<close>

theorem GetArticle_storage_failure:
  "find (\<lambda>a. ID a = 1) (articles (sample_store [Some io_error])) = Some article_password
   \<and> Atoi ''1'' = Inr 1
   \<and> fst (SQLiteDB_GetArticleByID 1 (sample_store [Some io_error])) = Inl io_error
   \<and> io_error \<noteq> ErrNoRows
   \<and> fst (SQLiteDB_GetArticleByID 999 (sample_store [])) = Inl ErrNoRows
   \<and> fst (GetArticle
          (NewSearchService SQLiteDB_interface MockAIService_AnalyzeQuery) ''1''
          (sample_store [Some io_error]))
       = \<lparr>statusCode = 404,
          body = ErrorBody \<lparr>Error = ''Article not found'', Message = ''''\<rparr>\<rparr>
   \<and> statusCode (fst (GetAllArticles_handler
          (NewSearchService SQLiteDB_interface MockAIService_AnalyzeQuery)
          (sample_store [Some io_error]))) = 500
   \<and> statusCode (fst (SearchQuery
          (NewSearchService SQLiteDB_interface MockAIService_AnalyzeQuery)
          (Inr \<lparr>Request_Query = ''vpn''\<rparr>) (sample_store [Some io_error]))) = 500"
  by code_simp

end
